theory Spec2Isabelle
  imports Complex_Main
begin

section \<open>Cross-talk collection of LinoSPAD2 (functions/cross\_talk.py)\<close>

text \<open>
  A shallow embedding of \<^verbatim>\<open>collect_cross_talk\<close> and \<^verbatim>\<open>calculate_dark_count_rate\<close>.
  Python exceptions and \<^verbatim>\<open>sys.exit()\<close> are values of \<open>error\<close>; the file system and
  the calls that touch it are an explicit \<open>world\<close> with a log of I/O events; the
  \<^verbatim>\<open>for\<close> loops are structural recursions over the lists they iterate.
  Calibrated timestamps are idealised as \<open>real\<close> numbers.
\<close>

subsection \<open>Python values and exceptions\<close>

text \<open>Arguments whose type the code tests with \<^verbatim>\<open>isinstance(_, str)\<close>.\<close>

datatype pyval = PyStr string | PyInt int | PyNone

fun is_str :: "pyval \<Rightarrow> bool" where
  "is_str (PyStr s) = True"
| "is_str (PyInt i) = False"
| "is_str PyNone = False"

datatype error = TypeError | SystemExit | IndexError | FileNotFoundError | ZeroDivisionError

text \<open>A numpy float result: \<^verbatim>\<open>0.0 / 0\<close> is \<^verbatim>\<open>nan\<close>, not an exception.\<close>

datatype npfloat = Nan | Fin real

subsection \<open>numpy helpers\<close>

definition arange :: "nat \<Rightarrow> int list" where
  "arange n = map int [0..<n]"

definition reshape :: "nat \<Rightarrow> nat \<Rightarrow> 'a list \<Rightarrow> 'a list list" where
  "reshape r c xs = map (\<lambda>i. take c (drop (i * c) xs)) [0..<r]"

text \<open>\<^verbatim>\<open>.T\<close> of a rectangular two-dimensional array.\<close>

definition np_T :: "'a list list \<Rightarrow> 'a list list" where
  "np_T rows = map (\<lambda>j. map (\<lambda>r. r ! j) rows) [0..<length (hd rows)]"

text \<open>\<^verbatim>\<open>np.argwhere(arr == p)\<close> on a two-dimensional array: the (row, column) index
  pairs of the matches, in row-major order.\<close>

definition argwhere_eq :: "int list list \<Rightarrow> int \<Rightarrow> (nat \<times> nat) list" where
  "argwhere_eq arr p =
     concat (map (\<lambda>i. map (\<lambda>j. (i, j)) (filter (\<lambda>j. arr ! i ! j = p) [0..<length (arr ! i)]))
                 [0..<length arr])"

text \<open>\<^verbatim>\<open>xs[0]\<close>: IndexError on an empty sequence.\<close>

definition first_index :: "'a list \<Rightarrow> error + 'a" where
  "first_index xs = (case xs of [] \<Rightarrow> Inl IndexError | x # _ \<Rightarrow> Inr x)"

text \<open>\<^verbatim>\<open>np.where(cond)[0]\<close> on a one-dimensional array: the indices where the
  condition holds, increasing.\<close>

definition np_where :: "('a \<Rightarrow> bool) \<Rightarrow> 'a list \<Rightarrow> nat list" where
  "np_where P xs = filter (\<lambda>i. P (xs ! i)) [0..<length xs]"

text \<open>\<^verbatim>\<open>xs[idx]\<close> with an index array produced by \<open>np_where\<close>.\<close>

definition gather :: "'a list \<Rightarrow> nat list \<Rightarrow> 'a list" where
  "gather xs idx = map (\<lambda>i. xs ! i) idx"

text \<open>\<^verbatim>\<open>np.insert(arr, pos, v)\<close> without an axis: the array is flattened (here it is the
  one-column result of \<^verbatim>\<open>np.argwhere\<close> on a one-dimensional array) and \<open>v\<close> is put
  before position \<open>pos\<close>.\<close>

definition np_insert :: "nat list \<Rightarrow> nat \<Rightarrow> nat \<Rightarrow> nat list" where
  "np_insert arr pos v = take pos arr @ [v] @ drop pos arr"

subsection \<open>Unpacked data\<close>

text \<open>One channel (TDC) of \<^verbatim>\<open>unpack_binary_data\<close>'s result: rows of (pixel index within
  the channel, timestamp); the pixel index \<open>-2\<close> marks the end of a cycle.
  \<open>col0\<close> and \<open>col1\<close> are \<^verbatim>\<open>.T[0]\<close> and \<^verbatim>\<open>.T[1]\<close>.\<close>

type_synonym channel = "(int \<times> real) list"

definition col0 :: "channel \<Rightarrow> int list" where
  "col0 ch = map fst ch"

definition col1 :: "channel \<Rightarrow> real list" where
  "col1 ch = map snd ch"

text \<open>\<^verbatim>\<open>data_all[k]\<close> for a non-negative \<open>k\<close>.\<close>

definition get_chan :: "channel list \<Rightarrow> nat \<Rightarrow> error + channel" where
  "get_chan data_all k = (if k < length data_all then Inr (data_all ! k) else Inl IndexError)"

subsection \<open>Pixel coordinates\<close>

text \<open>The firmware branch at the head of the file loop: the \<open>pix_coor\<close> array, or
  nothing where the code prints and calls \<^verbatim>\<open>sys.exit()\<close>.\<close>

definition pix_coor :: "pyval \<Rightarrow> int list list option" where
  "pix_coor firmware_version =
     (if firmware_version = PyStr ''2212s'' then Some (np_T (reshape 4 64 (arange 256)))
      else if firmware_version = PyStr ''2212b'' then Some (reshape 64 4 (arange 256))
      else None)"

text \<open>\<^verbatim>\<open>tdc, pix_c = np.argwhere(pix_coor == pixel)[0]\<close>.\<close>

definition pixel_lookup :: "int list list \<Rightarrow> int \<Rightarrow> error + (nat \<times> nat)" where
  "pixel_lookup pc pixel = first_index (argwhere_eq pc pixel)"

subsection \<open>Timestamp differences\<close>

text \<open>Python's \<^verbatim>\<open>xs[lo:hi]\<close> for non-negative bounds.\<close>

definition py_slice :: "'a list \<Rightarrow> nat \<Rightarrow> nat \<Rightarrow> 'a list" where
  "py_slice xs lo hi = take (hi - lo) (drop lo xs)"

text \<open>The cycles of a boundary sequence: consecutive boundaries \<open>(lo, hi)\<close>, a cycle being
  the offsets \<open>lo \<le> k < hi\<close>.\<close>

definition cycle_ranges :: "nat list \<Rightarrow> (nat \<times> nat) list" where
  "cycle_ranges cycle_ends = zip cycle_ends (tl cycle_ends)"

text \<open>Modelled from the spec: \<^verbatim>\<open>calc_diff.calculate_differences_2212\<close> (the module
  \<^verbatim>\<open>LinoSPAD2.functions.calc_diff\<close> is not among the sources). The spec's
  DifferenceEngine: for each cycle, restrict both series to that cycle's index range, then
  take every difference \<open>b - a\<close>, for \<open>a\<close> in the cycle slice of the first series and \<open>b\<close> in
  the cycle slice of the second, whose absolute value is at most the window; the
  differences of all cycles are concatenated.\<close>

definition calculate_differences_2212 :: "real list \<Rightarrow> real list \<Rightarrow> nat list \<Rightarrow> real \<Rightarrow> real list" where
  "calculate_differences_2212 data1 data2 cycle_ends delta_window =
     concat (map (\<lambda>(lo, hi).
               concat (map (\<lambda>a. map (\<lambda>b. b - a)
                                  (filter (\<lambda>b. \<bar>b - a\<bar> \<le> delta_window) (py_slice data2 lo hi)))
                           (py_slice data1 lo hi)))
             (cycle_ranges cycle_ends))"

text \<open>The pairs of offsets (into the first and into the second series) behind the
  differences of \<open>calculate_differences_2212\<close>, in the same order.\<close>

definition difference_offsets :: "real list \<Rightarrow> real list \<Rightarrow> nat list \<Rightarrow> real \<Rightarrow> (nat \<times> nat) list" where
  "difference_offsets data1 data2 cycle_ends delta_window =
     concat (map (\<lambda>(lo, hi).
               concat (map (\<lambda>i. map (\<lambda>j. (i, j))
                                  (filter (\<lambda>j. \<bar>data2 ! j - data1 ! i\<bar> \<le> delta_window)
                                          [lo..<min hi (length data2)]))
                           [lo..<min hi (length data1)]))
             (cycle_ranges cycle_ends))"

text \<open>Offset \<open>k\<close> lies in cycle \<open>c\<close> of the boundary sequence.\<close>

definition in_cycle :: "nat list \<Rightarrow> nat \<Rightarrow> nat \<Rightarrow> bool" where
  "in_cycle cycle_ends c k =
     (Suc c < length cycle_ends \<and> cycle_ends ! c \<le> k \<and> k < cycle_ends ! Suc c)"

subsection \<open>The world: files, output directory, I/O log\<close>

datatype io_event =
    Chdir string
  | Glob string
  | Unpack string
  | Makedirs string
  | ToCsv string

text \<open>One row of the table written to the csv file (the seven lists of the code are
  appended to together, so they are kept as one list of rows).\<close>

record ct_row =
  File :: string
  Pixel_1 :: int
  Pixel_2 :: int
  Timestamps_1 :: nat
  Timestamps_2 :: nat
  Deltas :: nat
  CT :: real

text \<open>The world as seen from the directory \<open>path\<close> of a call: whether it exists, the
  names \<^verbatim>\<open>glob.glob("*.dat*")\<close> finds there, what \<^verbatim>\<open>unpack_binary_data\<close> returns for each
  of them under the call's settings, the mask \<^verbatim>\<open>utils.apply_mask\<close> returns, the
  subdirectory \<^verbatim>\<open>cross_talk_data\<close> with its csv files, and the log of I/O events.\<close>

record world =
  path_exists :: bool
  dat_files :: "string list"
  unpack_binary_data :: "string \<Rightarrow> channel list"
  apply_mask :: "nat list"
  ct_dir_exists :: bool
  ct_dir :: "(string \<times> ct_row list) list"
  io_log :: "io_event list"

definition log_io :: "io_event \<Rightarrow> world \<Rightarrow> world" where
  "log_io e w = w\<lparr>io_log := io_log w @ [e]\<rparr>"

text \<open>How often the unpack step has run.\<close>

fun is_unpack :: "io_event \<Rightarrow> bool" where
  "is_unpack (Unpack f) = True"
| "is_unpack (Chdir p) = False"
| "is_unpack (Glob p) = False"
| "is_unpack (Makedirs p) = False"
| "is_unpack (ToCsv p) = False"

definition unpack_calls :: "world \<Rightarrow> nat" where
  "unpack_calls w = length (filter is_unpack (io_log w))"

text \<open>\<open>needle\<close> occurs in \<open>s\<close>: what the pattern \<^verbatim>\<open>*needle*\<close> matches (for names free of
  glob metacharacters).\<close>

fun contains_str :: "string \<Rightarrow> string \<Rightarrow> bool" where
  "contains_str needle [] = (needle = [])"
| "contains_str needle (c # s) = (take (length needle) (c # s) = needle \<or> contains_str needle s)"

definition glob_ct :: "world \<Rightarrow> string \<Rightarrow> string list" where
  "glob_ct w name = filter (contains_str name) (map fst (ct_dir w))"

text \<open>\<^verbatim>\<open>DataFrame.to_csv(name)\<close>: the file is created or overwritten.\<close>

definition to_csv :: "string \<Rightarrow> ct_row list \<Rightarrow> world \<Rightarrow> world" where
  "to_csv name rows w =
     log_io (ToCsv name) (w\<lparr>ct_dir := (name, rows) # filter (\<lambda>e. fst e \<noteq> name) (ct_dir w)\<rparr>)"

text \<open>The \<^verbatim>\<open>try: os.chdir("cross_talk_data")\<close> block.\<close>

definition enter_ct_dir :: "world \<Rightarrow> world" where
  "enter_ct_dir w =
     (if ct_dir_exists w then log_io (Chdir ''cross_talk_data'') w
      else log_io (Chdir ''cross_talk_data'')
             (log_io (Makedirs ''cross_talk_data'')
                (log_io (Chdir ''cross_talk_data'') w)\<lparr>ct_dir_exists := True\<rparr>))"

subsection \<open>collect\_cross\_talk\<close>

text \<open>Python's true division of two integers.\<close>

definition py_truediv :: "nat \<Rightarrow> nat \<Rightarrow> error + real" where
  "py_truediv a b = (if b = 0 then Inl ZeroDivisionError else Inr (real a / real b))"

text \<open>\<^verbatim>\<open>len(np.where(data > 0)[0])\<close>.\<close>

definition valid_count :: "real list \<Rightarrow> nat" where
  "valid_count data = length (np_where (\<lambda>t. t > 0) data)"

text \<open>The loop \<^verbatim>\<open>for j in range(1, len(pixels))\<close>, over the pixels still to come.\<close>

fun pair_loop ::
  "int list list \<Rightarrow> channel list \<Rightarrow> string \<Rightarrow> int \<Rightarrow> real list \<Rightarrow> nat list \<Rightarrow> real \<Rightarrow>
   int list \<Rightarrow> ct_row list \<Rightarrow> error + ct_row list" where
  "pair_loop pc data_all file pixel0 data1 cycle_ends delta_window [] acc = Inr acc"
| "pair_loop pc data_all file pixel0 data1 cycle_ends delta_window (pixel_j # rest) acc =
     (if pixel_j \<le> pixel0
      then pair_loop pc data_all file pixel0 data1 cycle_ends delta_window rest acc
      else
        (case pixel_lookup pc pixel_j of
           Inl e \<Rightarrow> Inl e
         | Inr (tdc2, pix_c2) \<Rightarrow>
           (case get_chan data_all tdc2 of
              Inl e \<Rightarrow> Inl e
            | Inr ch2 \<Rightarrow>
              (let pix2 = np_where (\<lambda>x. x = int pix_c2) (col0 ch2);
                   data2 = gather (col1 ch2) pix2;
                   deltas = calculate_differences_2212 data1 data2 cycle_ends delta_window;
                   timestamps_pix1 = valid_count data1
               in if timestamps_pix1 = 0
                  then pair_loop pc data_all file pixel0 data1 cycle_ends delta_window rest acc
                  else
                    (let timestamps_pix2 = valid_count data2
                     in case py_truediv (length deltas * 100) (timestamps_pix1 + timestamps_pix2) of
                          Inl e \<Rightarrow> Inl e
                        | Inr ct \<Rightarrow>
                            pair_loop pc data_all file pixel0 data1 cycle_ends delta_window rest
                              (acc @ [\<lparr>File = file, Pixel_1 = pixel0, Pixel_2 = pixel_j,
                                       Timestamps_1 = timestamps_pix1,
                                       Timestamps_2 = timestamps_pix2,
                                       Deltas = length deltas, CT = ct\<rparr>]))))))"

text \<open>\<^verbatim>\<open>cycle_ends = np.insert(np.argwhere(data_all[0].T[0] == -2), 0, 0)\<close>.\<close>

definition cycle_ends_of :: "channel \<Rightarrow> nat list" where
  "cycle_ends_of ch0 = np_insert (np_where (\<lambda>x. x = - 2) (col0 ch0)) 0 0"

text \<open>The body of the file loop after the unpacking: the first pixel's series, the cycle
  ends, then the loop over the pairs.\<close>

definition file_body ::
  "int list list \<Rightarrow> int list \<Rightarrow> real \<Rightarrow> string \<Rightarrow> channel list \<Rightarrow> ct_row list \<Rightarrow>
   error + ct_row list" where
  "file_body pc pixels delta_window file data_all acc =
     (case first_index pixels of
        Inl e \<Rightarrow> Inl e
      | Inr pixel0 \<Rightarrow>
        (case pixel_lookup pc pixel0 of
           Inl e \<Rightarrow> Inl e
         | Inr (tdc1, pix_c1) \<Rightarrow>
           (case get_chan data_all tdc1 of
              Inl e \<Rightarrow> Inl e
            | Inr ch1 \<Rightarrow>
              (let pix1 = np_where (\<lambda>x. x = int pix_c1) (col0 ch1);
                   data1 = gather (col1 ch1) pix1
               in case get_chan data_all 0 of
                    Inl e \<Rightarrow> Inl e
                  | Inr ch0 \<Rightarrow>
                      pair_loop pc data_all file pixel0 data1 (cycle_ends_of ch0) delta_window
                        (tl pixels) acc))))"

text \<open>The loop \<^verbatim>\<open>for i, file in enumerate(tqdm(files))\<close>. The firmware branch is the first
  statement of its body.\<close>

fun file_loop ::
  "pyval \<Rightarrow> int list \<Rightarrow> real \<Rightarrow> string list \<Rightarrow> world \<Rightarrow> ct_row list \<Rightarrow>
   (error + ct_row list) \<times> world" where
  "file_loop firmware_version pixels delta_window [] w acc = (Inr acc, w)"
| "file_loop firmware_version pixels delta_window (file # files) w acc =
     (case pix_coor firmware_version of
        None \<Rightarrow> (Inl SystemExit, w)
      | Some pc \<Rightarrow>
        (let w' = log_io (Unpack file) w;
             data_all = unpack_binary_data w file
         in case file_body pc pixels delta_window file data_all acc of
              Inl e \<Rightarrow> (Inl e, w')
            | Inr acc' \<Rightarrow> file_loop firmware_version pixels delta_window files w' acc'))"

definition csv_name :: "string list \<Rightarrow> string" where
  "csv_name files = ''CT_data_'' @ hd files @ ''-'' @ last files @ ''.csv''"

definition collect_cross_talk ::
  "world \<Rightarrow> string \<Rightarrow> int list \<Rightarrow> pyval \<Rightarrow> pyval \<Rightarrow> pyval \<Rightarrow> real \<Rightarrow>
   (error + unit) \<times> world" where
  "collect_cross_talk w path pixels daughterboard_number motherboard_number firmware_version
     delta_window =
     (if \<not> is_str daughterboard_number then (Inl TypeError, w)
      else if \<not> is_str motherboard_number then (Inl TypeError, w)
      else if \<not> path_exists w then (Inl FileNotFoundError, log_io (Chdir path) w)
      else
        (let w1 = log_io (Glob ''*.dat*'') (log_io (Chdir path) w);
             files = dat_files w
         in case file_loop firmware_version pixels delta_window files w1 [] of
              (Inl e, w2) \<Rightarrow> (Inl e, w2)
            | (Inr cross_talk_data, w2) \<Rightarrow>
                if files = [] then (Inl IndexError, w2)
                else
                  (let w3 = log_io (Glob (''*'' @ csv_name files @ ''*'')) (enter_ct_dir w2)
                   in if glob_ct w3 (csv_name files) = []
                      then (Inr (), to_csv (csv_name files) cross_talk_data w3)
                      else (Inr (), to_csv (csv_name files) cross_talk_data w3))))"

subsection \<open>calculate\_dark\_count\_rate\<close>

text \<open>The loop \<^verbatim>\<open>for i in range(256)\<close> over the pixels of one file.\<close>

fun pixel_loop ::
  "int list list \<Rightarrow> channel list \<Rightarrow> int list \<Rightarrow> real list \<Rightarrow> error + real list" where
  "pixel_loop pc data [] valid_per_pixel = Inr valid_per_pixel"
| "pixel_loop pc data (i # rest) valid_per_pixel =
     (case pixel_lookup pc i of
        Inl e \<Rightarrow> Inl e
      | Inr (tdc, pix) \<Rightarrow>
        (case get_chan data tdc of
           Inl e \<Rightarrow> Inl e
         | Inr ch \<Rightarrow>
           (let ind = np_where (\<lambda>x. x = int pix) (col0 ch);
                ind1 = np_where (\<lambda>t. t > 0) (gather (col1 ch) ind);
                n = length (gather (col1 ch) (gather ind ind1))
            in pixel_loop pc data rest
                 (valid_per_pixel[nat i := valid_per_pixel ! nat i + real n]))))"

text \<open>The loop \<^verbatim>\<open>for i in tqdm(range(len(files)))\<close>.\<close>

fun dcr_file_loop ::
  "pyval \<Rightarrow> string list \<Rightarrow> world \<Rightarrow> real list \<Rightarrow> (error + real list) \<times> world" where
  "dcr_file_loop firmware_version [] w valid_per_pixel = (Inr valid_per_pixel, w)"
| "dcr_file_loop firmware_version (file # files) w valid_per_pixel =
     (case pix_coor firmware_version of
        None \<Rightarrow> (Inl SystemExit, w)
      | Some pc \<Rightarrow>
        (let w' = log_io (Unpack file) w;
             data = unpack_binary_data w file
         in case pixel_loop pc data (arange 256) valid_per_pixel of
              Inl e \<Rightarrow> (Inl e, w')
            | Inr v \<Rightarrow> dcr_file_loop firmware_version files w' v))"

text \<open>\<^verbatim>\<open>valid_per_pixel[mask] = 0\<close>.\<close>

definition zero_masked :: "real list \<Rightarrow> nat list \<Rightarrow> error + real list" where
  "zero_masked v masked =
     (if list_all (\<lambda>m. m < length v) masked
      then Inr (fold (\<lambda>m u. u[m := 0]) masked v)
      else Inl IndexError)"

definition calculate_dark_count_rate ::
  "world \<Rightarrow> string \<Rightarrow> pyval \<Rightarrow> pyval \<Rightarrow> pyval \<Rightarrow> (error + npfloat) \<times> world" where
  "calculate_dark_count_rate w path daughterboard_number motherboard_number firmware_version =
     (if \<not> is_str firmware_version then (Inl TypeError, w)
      else if \<not> is_str daughterboard_number then (Inl TypeError, w)
      else if \<not> is_str motherboard_number then (Inl TypeError, w)
      else if \<not> path_exists w then (Inl FileNotFoundError, log_io (Chdir path) w)
      else
        (let w1 = log_io (Glob ''*.dat*'') (log_io (Chdir path) w);
             files = dat_files w
         in case dcr_file_loop firmware_version files w1 (replicate 256 0) of
              (Inl e, w2) \<Rightarrow> (Inl e, w2)
            | (Inr valid_per_pixel, w2) \<Rightarrow>
                (case zero_masked valid_per_pixel (apply_mask w) of
                   Inl e \<Rightarrow> (Inl e, w2)
                 | Inr v \<Rightarrow>
                     if files = [] then (Inr Nan, w2)
                     else (Inr (Fin (sum_list v / 256 / real (length files))), w2))))"

subsection \<open>What the loops compute, in closed form\<close>

text \<open>The timestamps of one pixel in the unpacked data, as the three statements
  \<^verbatim>\<open>tdc, pix_c = np.argwhere(pix_coor == pixel)[0]\<close>,
  \<^verbatim>\<open>pix = np.where(data_all[tdc].T[0] == pix_c)[0]\<close> and
  \<^verbatim>\<open>data = data_all[tdc].T[1][pix]\<close> extract them (used to state what the loops above
  compute; the loops themselves spell the three statements out).\<close>

definition pixel_series :: "int list list \<Rightarrow> channel list \<Rightarrow> int \<Rightarrow> error + real list" where
  "pixel_series pc data_all pixel =
     (case pixel_lookup pc pixel of
        Inl e \<Rightarrow> Inl e
      | Inr (tdc, pix_c) \<Rightarrow>
        (case get_chan data_all tdc of
           Inl e \<Rightarrow> Inl e
         | Inr ch \<Rightarrow> Inr (gather (col1 ch) (np_where (\<lambda>x. x = int pix_c) (col0 ch)))))"

text \<open>The rows of one pixel in its channel: the index array \<^verbatim>\<open>pix\<close> of
  \<^verbatim>\<open>pix = np.where(data_all[tdc].T[0] == pix_c)[0]\<close>. Position \<open>k\<close> of the pixel's series holds
  the timestamp of row \<open>pixel_rows ! k\<close> of the channel; the series itself no longer carries
  the rows.\<close>

definition pixel_rows :: "int list list \<Rightarrow> channel list \<Rightarrow> int \<Rightarrow> error + nat list" where
  "pixel_rows pc data_all pixel =
     (case pixel_lookup pc pixel of
        Inl e \<Rightarrow> Inl e
      | Inr (tdc, pix_c) \<Rightarrow>
        (case get_chan data_all tdc of
           Inl e \<Rightarrow> Inl e
         | Inr ch \<Rightarrow> Inr (np_where (\<lambda>x. x = int pix_c) (col0 ch))))"

text \<open>The row appended for a pair that is not skipped.\<close>

definition ct_row_of ::
  "string \<Rightarrow> int \<Rightarrow> int \<Rightarrow> real list \<Rightarrow> real list \<Rightarrow> nat list \<Rightarrow> real \<Rightarrow> ct_row" where
  "ct_row_of file pixel0 pixel_j data1 data2 cycle_ends delta_window =
     \<lparr>File = file, Pixel_1 = pixel0, Pixel_2 = pixel_j,
      Timestamps_1 = valid_count data1, Timestamps_2 = valid_count data2,
      Deltas = length (calculate_differences_2212 data1 data2 cycle_ends delta_window),
      CT = real (length (calculate_differences_2212 data1 data2 cycle_ends delta_window) * 100)
           / real (valid_count data1 + valid_count data2)\<rparr>"

text \<open>The rows of one file: one for every later pixel above the first, unless the first
  pixel has no valid timestamp in the file.\<close>

definition file_rows ::
  "int list list \<Rightarrow> int list \<Rightarrow> real \<Rightarrow> string \<Rightarrow> channel list \<Rightarrow> ct_row list" where
  "file_rows pc pixels delta_window file data_all =
     map (\<lambda>pixel_j. ct_row_of file (hd pixels) pixel_j
                       (projr (pixel_series pc data_all (hd pixels)))
                       (projr (pixel_series pc data_all pixel_j))
                       (cycle_ends_of (data_all ! 0)) delta_window)
         (filter (\<lambda>pixel_j. hd pixels < pixel_j
                            \<and> valid_count (projr (pixel_series pc data_all (hd pixels))) \<noteq> 0)
                 (tl pixels))"

subsection \<open>A concrete acquisition\<close>

text \<open>One data file of two cycles of three rows each. Under firmware \<^verbatim>\<open>2212b\<close> pixels 0 and 1
  are the intra-channel pixels 0 and 1 of channel 0; the other 63 channels hold no valid
  timestamp.\<close>

definition example_data :: "channel list" where
  "example_data =
     [(0, 100), (1, 150), (- 2, - 2), (0, 5100), (1, 5200), (- 2, - 2)]
     # replicate 63 [(- 1, - 1), (- 1, - 1), (- 2, - 2), (- 1, - 1), (- 1, - 1), (- 2, - 2)]"

definition example_world :: world where
  "example_world =
     \<lparr>path_exists = True, dat_files = [''a.dat''], unpack_binary_data = (\<lambda>f. example_data),
      apply_mask = [], ct_dir_exists = False, ct_dir = [], io_log = []\<rparr>"

text \<open>The world the call on \<open>example_world\<close> with the pixels 0 and 1 leaves behind.\<close>

definition first_run_world :: world where
  "first_run_world =
     \<lparr>path_exists = True, dat_files = [''a.dat''], unpack_binary_data = (\<lambda>f. example_data),
      apply_mask = [], ct_dir_exists = True,
      ct_dir = [(''CT_data_a.dat-a.dat.csv'',
                 [\<lparr>File = ''a.dat'', Pixel_1 = 0, Pixel_2 = 1, Timestamps_1 = 2,
                    Timestamps_2 = 2, Deltas = 4, CT = 100\<rparr>])],
      io_log = [Chdir ''data'', Glob ''*.dat*'', Unpack ''a.dat'', Chdir ''cross_talk_data'',
                Makedirs ''cross_talk_data'', Chdir ''cross_talk_data'',
                Glob ''*CT_data_a.dat-a.dat.csv*'', ToCsv ''CT_data_a.dat-a.dat.csv'']\<rparr>"

text \<open>A second file in which pixel 0 has no valid timestamp, listed before the first.\<close>

definition dark_data :: "channel list" where
  "dark_data =
     [(0, - 1), (1, 150), (- 2, - 2), (0, - 1), (1, 5200), (- 2, - 2)]
     # replicate 63 [(- 1, - 1), (- 1, - 1), (- 2, - 2), (- 1, - 1), (- 1, - 1), (- 2, - 2)]"

definition two_file_world :: world where
  "two_file_world =
     \<lparr>path_exists = True, dat_files = [''dark.dat'', ''a.dat''],
      unpack_binary_data = (\<lambda>f. if f = ''dark.dat'' then dark_data else example_data),
      apply_mask = [], ct_dir_exists = False, ct_dir = [], io_log = []\<rparr>"

text \<open>The same records as in \<open>example_data\<close>, with the two timestamps of pixel 0 in the first
  cycle and the two of pixel 1 in the second.\<close>

definition grouped_data :: "channel list" where
  "grouped_data =
     [(0, 100), (0, 5100), (- 2, - 2), (1, 150), (1, 5200), (- 2, - 2)]
     # replicate 63 [(- 1, - 1), (- 1, - 1), (- 2, - 2), (- 1, - 1), (- 1, - 1), (- 2, - 2)]"

section \<open>Properties\<close>

subsection \<open>Configuration errors\<close>


lemma file_loop_unrecognized:
  "pix_coor firmware_version = None \<Longrightarrow> files \<noteq> [] \<Longrightarrow>
   file_loop firmware_version pixels delta_window files w acc = (Inl SystemExit, w)"
  by (cases files) simp_all


text \<open>
  C8. A daughterboard or motherboard number that is not a string makes both
  \<^verbatim>\<open>collect_cross_talk\<close> and \<^verbatim>\<open>calculate_dark_count_rate\<close> raise TypeError with the world
  untouched: the I/O log is the one the call started with, so no directory was entered or
  listed and no file unpacked.
\<close>

theorem board_number_type_error:
  assumes "\<not> is_str daughterboard_number \<or> \<not> is_str motherboard_number"
  shows "collect_cross_talk w path pixels daughterboard_number motherboard_number
           firmware_version delta_window = (Inl TypeError, w)
       \<and> calculate_dark_count_rate w path daughterboard_number motherboard_number
           firmware_version = (Inl TypeError, w)"
  using assms by (auto simp: collect_cross_talk_def calculate_dark_count_rate_def)

theorem board_number_type_error_witness:
  "collect_cross_talk example_world ''data'' [0, 1] (PyInt 11) (PyStr ''#33'')
     (PyStr ''2212b'') 10000 = (Inl TypeError, example_world)
   \<and> calculate_dark_count_rate example_world ''data'' (PyInt 11) (PyStr ''#33'')
       (PyStr ''2212b'') = (Inl TypeError, example_world)"
  using board_number_type_error [of "PyInt 11" "PyStr ''#33''" example_world "''data''" "[0, 1]"
      "PyStr ''2212b''" 10000]
  by simp




subsection \<open>Cycle boundaries\<close>

lemma np_where_sorted: "sorted_wrt (<) (np_where P xs)"
  unfolding np_where_def by (rule sorted_wrt_filter) simp

lemma set_np_where: "set (np_where P xs) = {i. i < length xs \<and> P (xs ! i)}"
  by (auto simp: np_where_def)

lemma strict_cons0: "sorted_wrt (<) xs \<Longrightarrow> sorted_wrt (<) ((0::nat) # xs) = (0 \<notin> set xs)"
proof -
  have "(\<forall>x\<in>set xs. 0 < x) = (0 \<notin> set xs)"
    by (metis gr0I less_irrefl)
  then show "sorted_wrt (<) xs \<Longrightarrow> sorted_wrt (<) ((0::nat) # xs) = (0 \<notin> set xs)"
    by simp
qed

text \<open>
  C7. The cycle ends of a channel are 0 followed by the row indices whose pixel field is the
  sentinel \<open>-2\<close>; those indices are strictly increasing, and the whole sequence is
  monotonically increasing (strictly so exactly when row 0 is not itself a sentinel).
\<close>

theorem cycle_ends_of_sorted:
  "cycle_ends_of ch0 = 0 # np_where (\<lambda>x. x = - 2) (col0 ch0)
   \<and> set (np_where (\<lambda>x. x = - 2) (col0 ch0)) = {i. i < length ch0 \<and> fst (ch0 ! i) = - 2}
   \<and> sorted_wrt (<) (np_where (\<lambda>x. x = - 2) (col0 ch0))
   \<and> sorted (cycle_ends_of ch0)
   \<and> sorted_wrt (<) (cycle_ends_of ch0) = (\<not> (0 < length ch0 \<and> fst (ch0 ! 0) = - 2))"
proof -
  let ?ends = "np_where (\<lambda>x. x = - 2) (col0 ch0)"
  have a: "cycle_ends_of ch0 = 0 # ?ends"
    by (simp add: cycle_ends_of_def np_insert_def)
  have b: "set ?ends = {i. i < length ch0 \<and> fst (ch0 ! i) = - 2}"
    by (auto simp: set_np_where col0_def)
  have c: "sorted_wrt (<) ?ends"
    by (rule np_where_sorted)
  have "sorted ?ends"
    using c by (rule strict_sorted_imp_sorted)
  then have d: "sorted (cycle_ends_of ch0)"
    by (simp add: a)
  have "sorted_wrt (<) (0 # ?ends) = (0 \<notin> set ?ends)"
    using c by (rule strict_cons0)
  then have e: "sorted_wrt (<) (cycle_ends_of ch0) = (\<not> (0 < length ch0 \<and> fst (ch0 ! 0) = - 2))"
    unfolding a b by simp
  show ?thesis using a b c d e by blast
qed

subsection \<open>The pixel lookup in closed form\<close>

lemma set_argwhere_eq:
  "set (argwhere_eq arr p) = {(i, j). i < length arr \<and> j < length (arr ! i) \<and> arr ! i ! j = p}"
  by (auto simp: argwhere_eq_def)

lemma first_index_singleton:
  assumes "set xs = {x}"
  shows "first_index xs = Inr x"
proof (cases xs)
  case Nil
  with assms show ?thesis by simp
next
  case (Cons y ys)
  then have "y \<in> set xs" by simp
  then have "y = x" using assms by simp
  then show ?thesis using Cons by (simp add: first_index_def)
qed

lemma first_index_empty: "set xs = {} \<Longrightarrow> first_index xs = Inl IndexError"
  by (simp add: first_index_def)

lemma reshape_nth:
  "i < r \<Longrightarrow> j < c \<Longrightarrow> r * c \<le> length xs \<Longrightarrow> reshape r c xs ! i ! j = xs ! (i * c + j)"
proof -
  assume a: "i < r" "j < c" "r * c \<le> length xs"
  have "i * c + c \<le> r * c"
    using a(1) by (metis Suc_leI mult_Suc mult_le_mono1 add.commute)
  then have "i * c + j < length xs" using a by linarith
  then show ?thesis using a by (simp add: reshape_def)
qed

lemma length_reshape: "length (reshape r c xs) = r"
  by (simp add: reshape_def)

lemma length_reshape_row:
  "i < r \<Longrightarrow> r * c \<le> length xs \<Longrightarrow> length (reshape r c xs ! i) = c"
proof -
  assume a: "i < r" "r * c \<le> length xs"
  have "i * c + c \<le> r * c"
    using a(1) by (metis Suc_leI mult_Suc mult_le_mono1 add.commute)
  then show ?thesis using a by (simp add: reshape_def)
qed

lemma arange_nth: "k < n \<Longrightarrow> arange n ! k = int k"
  by (simp add: arange_def)

lemma length_arange: "length (arange n) = n"
  by (simp add: arange_def)

lemma pc_b_nth: "i < 64 \<Longrightarrow> j < 4 \<Longrightarrow> reshape 64 4 (arange 256) ! i ! j = int (i * 4 + j)"
  by (simp add: reshape_nth length_arange arange_nth)

lemma pc_b_len: "length (reshape 64 4 (arange 256)) = 64"
  by (simp add: length_reshape)

lemma pc_b_row: "i < 64 \<Longrightarrow> length (reshape 64 4 (arange 256) ! i) = 4"
  by (simp add: length_reshape_row length_arange)

lemma hd_reshape: "0 < r \<Longrightarrow> hd (reshape r c xs) = reshape r c xs ! 0"
proof -
  assume "0 < r"
  then have "reshape r c xs \<noteq> []"
    using length_reshape [of r c xs] by auto
  then show ?thesis by (rule hd_conv_nth)
qed

lemma grid_b:
  "(n::nat) < 256 \<Longrightarrow> {(i, j). i < 64 \<and> j < 4 \<and> i * 4 + j = n} = {(n div 4, n mod 4)}"
  by auto

lemma grid_s:
  "(n::nat) < 256 \<Longrightarrow> {(i, j). i < 64 \<and> j < 4 \<and> j * 64 + i = n} = {(n mod 64, n div 64)}"
  by auto

lemma int_range_nat: "0 \<le> p \<Longrightarrow> p < 256 \<Longrightarrow> \<exists>n. p = int n \<and> n < 256"
  by (rule exI [of _ "nat p"]) simp


lemma pc_s_len: "length (np_T (reshape 4 64 (arange 256))) = 64"
  by (simp add: np_T_def hd_reshape length_reshape_row length_arange)

lemma pc_s_row: "i < 64 \<Longrightarrow> length (np_T (reshape 4 64 (arange 256)) ! i) = 4"
  by (simp add: np_T_def hd_reshape length_reshape_row length_arange length_reshape)

lemma pc_s_nth:
  "i < 64 \<Longrightarrow> j < 4 \<Longrightarrow> np_T (reshape 4 64 (arange 256)) ! i ! j = int (j * 64 + i)"
proof -
  assume a: "i < 64" "j < 4"
  have l: "length (hd (reshape 4 64 (arange 256))) = 64"
    by (simp add: hd_reshape length_reshape_row length_arange)
  have "np_T (reshape 4 64 (arange 256)) ! i ! j = reshape 4 64 (arange 256) ! j ! i"
    using a by (simp add: np_T_def l length_reshape)
  also have "\<dots> = int (j * 64 + i)"
    using a by (simp add: reshape_nth length_arange arange_nth)
  finally show ?thesis .
qed

lemma pixel_lookup_2212b:
  assumes "0 \<le> p" "p < 256"
  shows "pixel_lookup (reshape 64 4 (arange 256)) p = Inr (nat p div 4, nat p mod 4)"
proof -
  obtain n where n: "p = int n" "n < 256"
    using int_range_nat [OF assms] by blast
  have "set (argwhere_eq (reshape 64 4 (arange 256)) p)
        = {(i, j). i < 64 \<and> j < 4 \<and> i * 4 + j = n}"
    unfolding set_argwhere_eq pc_b_len n(1)
    by (auto simp: pc_b_row pc_b_nth simp del: of_nat_add of_nat_mult)
  then have "set (argwhere_eq (reshape 64 4 (arange 256)) p) = {(nat p div 4, nat p mod 4)}"
    using n by (simp add: grid_b)
  then show ?thesis unfolding pixel_lookup_def by (rule first_index_singleton)
qed

lemma pixel_lookup_2212s:
  assumes "0 \<le> p" "p < 256"
  shows "pixel_lookup (np_T (reshape 4 64 (arange 256))) p = Inr (nat p mod 64, nat p div 64)"
proof -
  obtain n where n: "p = int n" "n < 256"
    using int_range_nat [OF assms] by blast
  have "set (argwhere_eq (np_T (reshape 4 64 (arange 256))) p)
        = {(i, j). i < 64 \<and> j < 4 \<and> j * 64 + i = n}"
    unfolding set_argwhere_eq pc_s_len n(1)
    by (auto simp: pc_s_row pc_s_nth simp del: of_nat_add of_nat_mult)
  then have "set (argwhere_eq (np_T (reshape 4 64 (arange 256))) p)
             = {(nat p mod 64, nat p div 64)}"
    using n by (simp add: grid_s)
  then show ?thesis unfolding pixel_lookup_def by (rule first_index_singleton)
qed

lemma pixel_lookup_2212b_out:
  assumes "p < 0 \<or> 256 \<le> p"
  shows "pixel_lookup (reshape 64 4 (arange 256)) p = Inl IndexError"
proof -
  have "set (argwhere_eq (reshape 64 4 (arange 256)) p) = {}"
    using assms by (auto simp: set_argwhere_eq pc_b_len pc_b_row pc_b_nth)
  then show ?thesis unfolding pixel_lookup_def by (rule first_index_empty)
qed

lemma pixel_lookup_2212s_out:
  assumes "p < 0 \<or> 256 \<le> p"
  shows "pixel_lookup (np_T (reshape 4 64 (arange 256))) p = Inl IndexError"
proof -
  have "set (argwhere_eq (np_T (reshape 4 64 (arange 256))) p) = {}"
    using assms by (auto simp: set_argwhere_eq pc_s_len pc_s_row pc_s_nth)
  then show ?thesis unfolding pixel_lookup_def by (rule first_index_empty)
qed

lemma pix_coor_2212s: "pix_coor (PyStr ''2212s'') = Some (np_T (reshape 4 64 (arange 256)))"
  by (simp add: pix_coor_def)

lemma pix_coor_2212b: "pix_coor (PyStr ''2212b'') = Some (reshape 64 4 (arange 256))"
  by (simp add: pix_coor_def)

lemma grid_bij_b:
  "bij_betw (\<lambda>p. (nat p div 4, nat p mod 4)) {0..255::int} ({0..<64} \<times> {0..<4})"
proof (rule bij_betw_byWitness [where f' = "\<lambda>(i, j). int (i * 4 + j)"])
  show "\<forall>p\<in>{0..255::int}. (case (nat p div 4, nat p mod 4) of (i, j) \<Rightarrow> int (i * 4 + j)) = p"
    by (simp del: of_nat_add of_nat_mult)
  show "\<forall>c\<in>{0..<64} \<times> {0..<4}.
          (nat (case c of (i, j) \<Rightarrow> int (i * 4 + j)) div 4,
           nat (case c of (i, j) \<Rightarrow> int (i * 4 + j)) mod 4) = c"
    by (auto simp del: of_nat_add of_nat_mult)
  show "(\<lambda>p. (nat p div 4, nat p mod 4)) ` {0..255::int} \<subseteq> {0..<64} \<times> {0..<4}"
    by auto
  show "(\<lambda>(i, j). int (i * 4 + j)) ` ({0..<64} \<times> {0..<4}) \<subseteq> {0..255::int}"
    by auto
qed

lemma grid_bij_s:
  "bij_betw (\<lambda>p. (nat p mod 64, nat p div 64)) {0..255::int} ({0..<64} \<times> {0..<4})"
proof (rule bij_betw_byWitness [where f' = "\<lambda>(i, j). int (j * 64 + i)"])
  show "\<forall>p\<in>{0..255::int}. (case (nat p mod 64, nat p div 64) of (i, j) \<Rightarrow> int (j * 64 + i)) = p"
    by (simp del: of_nat_add of_nat_mult)
  show "\<forall>c\<in>{0..<64} \<times> {0..<4}.
          (nat (case c of (i, j) \<Rightarrow> int (j * 64 + i)) mod 64,
           nat (case c of (i, j) \<Rightarrow> int (j * 64 + i)) div 64) = c"
    by (auto simp del: of_nat_add of_nat_mult)
  show "(\<lambda>p. (nat p mod 64, nat p div 64)) ` {0..255::int} \<subseteq> {0..<64} \<times> {0..<4}"
    by auto
  show "(\<lambda>(i, j). int (j * 64 + i)) ` ({0..<64} \<times> {0..<4}) \<subseteq> {0..255::int}"
    by auto
qed

lemma bij_Inr:
  assumes "bij_betw f A B" and "\<And>p. p \<in> A \<Longrightarrow> g p = Inr (f p)"
  shows "bij_betw g A (Inr ` B)"
proof -
  have "bij_betw (Inr \<circ> f) A (Inr ` B)"
    using assms(1) by (rule bij_betw_trans) (simp add: bij_betw_def)
  moreover have "\<And>p. p \<in> A \<Longrightarrow> (Inr \<circ> f) p = g p"
    using assms(2) by simp
  ultimately show ?thesis by (rule bij_betw_cong [THEN iffD1, rotated])
qed

text \<open>
  C6, as the code has it. For each of the two firmware tags, the lookup
  \<^verbatim>\<open>np.argwhere(pix_coor == pixel)[0]\<close> is a bijection from the pixels 0..255 onto the grid of
  64 channels with 4 intra-channel indices each (the first coordinate, used to index
  \<^verbatim>\<open>data_all\<close>, runs over 0..63, the second over 0..3); both tags cover the same 256 pixels
  and the same 256 cells, and they map differently: pixel 1 is cell (1, 0) under \<^verbatim>\<open>2212s\<close> and
  cell (0, 1) under \<^verbatim>\<open>2212b\<close>.
\<close>

theorem pixel_lookup_bijection:
  "bij_betw (pixel_lookup (the (pix_coor (PyStr ''2212s'')))) {0..255}
     (Inr ` ({0..<64} \<times> {0..<4}))
   \<and> bij_betw (pixel_lookup (the (pix_coor (PyStr ''2212b'')))) {0..255}
     (Inr ` ({0..<64} \<times> {0..<4}))
   \<and> card ({0..<64::nat} \<times> {0..<4::nat}) = 256
   \<and> card {0..255::int} = 256
   \<and> pixel_lookup (the (pix_coor (PyStr ''2212s''))) 1 = Inr (1, 0)
   \<and> pixel_lookup (the (pix_coor (PyStr ''2212b''))) 1 = Inr (0, 1)"
proof -
  have s: "bij_betw (pixel_lookup (the (pix_coor (PyStr ''2212s'')))) {0..255}
     (Inr ` ({0..<64} \<times> {0..<4}))"
    unfolding pix_coor_2212s option.sel
    using grid_bij_s by (rule bij_Inr) (simp add: pixel_lookup_2212s)
  have b: "bij_betw (pixel_lookup (the (pix_coor (PyStr ''2212b'')))) {0..255}
     (Inr ` ({0..<64} \<times> {0..<4}))"
    unfolding pix_coor_2212b option.sel
    using grid_bij_b by (rule bij_Inr) (simp add: pixel_lookup_2212b)
  have c: "card ({0..<64::nat} \<times> {0..<4::nat}) = 256" "card {0..255::int} = 256"
    by simp_all
  have d: "pixel_lookup (the (pix_coor (PyStr ''2212s''))) 1 = Inr (1, 0)"
    "pixel_lookup (the (pix_coor (PyStr ''2212b''))) 1 = Inr (0, 1)"
    by (simp_all add: pix_coor_2212s pix_coor_2212b pixel_lookup_2212s pixel_lookup_2212b)
  show ?thesis using s b c d by blast
qed

text \<open>
  C6 as stated, with 4 channels of 64 intra-channel indices, fails: under \<^verbatim>\<open>2212b\<close> pixel 255
  is in channel 63.
\<close>

theorem pixel_lookup_not_onto_4_by_64:
  "\<not> bij_betw (pixel_lookup (the (pix_coor (PyStr ''2212b'')))) {0..255}
     (Inr ` ({0..<4} \<times> {0..<64}))"
proof
  assume "bij_betw (pixel_lookup (the (pix_coor (PyStr ''2212b'')))) {0..255}
     (Inr ` ({0..<4} \<times> {0..<64}))"
  then have "pixel_lookup (the (pix_coor (PyStr ''2212b''))) ` {0..255}
             = Inr ` ({0..<4} \<times> {0..<64})"
    by (rule bij_betw_imp_surj_on)
  moreover have "pixel_lookup (the (pix_coor (PyStr ''2212b''))) 255
                 \<in> pixel_lookup (the (pix_coor (PyStr ''2212b''))) ` {0..255}"
    by (rule imageI) simp
  ultimately have "pixel_lookup (the (pix_coor (PyStr ''2212b''))) 255
                   \<in> Inr ` ({0..<4} \<times> {0..<64})"
    by simp
  then show False
    by (simp add: pix_coor_2212b pixel_lookup_2212b image_iff)
qed

subsection \<open>Timestamp differences within a cycle\<close>

lemma py_slice_nth:
  "py_slice xs lo hi = map (\<lambda>k. xs ! k) [lo..<min hi (length xs)]"
proof (rule nth_equalityI)
  show "length (py_slice xs lo hi) = length (map (\<lambda>k. xs ! k) [lo..<min hi (length xs)])"
    by (simp add: py_slice_def)
next
  fix i
  assume "i < length (py_slice xs lo hi)"
  then have i: "i < hi - lo" "i < length xs - lo"
    by (simp_all add: py_slice_def)
  define m where "m = min hi (length xs)"
  have lt: "lo + i < m"
    using i unfolding m_def by linarith
  then have "i < length [lo..<m]" by simp
  then have "map (\<lambda>k. xs ! k) [lo..<m] ! i = xs ! ([lo..<m] ! i)"
    by (rule nth_map)
  also have "\<dots> = xs ! (lo + i)"
    using lt by (simp only: nth_upt)
  finally have "map (\<lambda>k. xs ! k) [lo..<m] ! i = xs ! (lo + i)" .
  moreover have "py_slice xs lo hi ! i = xs ! (lo + i)"
    using i by (simp add: py_slice_def)
  ultimately show "py_slice xs lo hi ! i = map (\<lambda>k. xs ! k) [lo..<min hi (length xs)] ! i"
    unfolding m_def by simp
qed

lemma cycle_ranges_in_cycle:
  assumes "(lo, hi) \<in> set (cycle_ranges cycle_ends)" and "lo \<le> k" and "k < hi"
  shows "\<exists>c. in_cycle cycle_ends c k \<and> lo = cycle_ends ! c \<and> hi = cycle_ends ! Suc c"
proof -
  from assms(1) obtain c where c: "c < length (tl cycle_ends)" "c < length cycle_ends"
      "lo = cycle_ends ! c" "hi = tl cycle_ends ! c"
    unfolding cycle_ranges_def by (auto simp: set_zip)
  have "hi = cycle_ends ! Suc c"
    using c(1,4) by (simp add: nth_tl)
  moreover have "Suc c < length cycle_ends"
    using c(1) by simp
  ultimately show ?thesis
    using assms(2,3) c(3) unfolding in_cycle_def by blast
qed

lemma difference_offsets_same_cycle:
  assumes "(i, j) \<in> set (difference_offsets data1 data2 cycle_ends delta_window)"
  shows "i < length data1 \<and> j < length data2
         \<and> \<bar>data2 ! j - data1 ! i\<bar> \<le> delta_window
         \<and> (\<exists>c. in_cycle cycle_ends c i \<and> in_cycle cycle_ends c j)"
proof -
  from assms obtain lo hi where r: "(lo, hi) \<in> set (cycle_ranges cycle_ends)"
    "lo \<le> i" "i < hi" "i < length data1" "lo \<le> j" "j < hi" "j < length data2"
    "\<bar>data2 ! j - data1 ! i\<bar> \<le> delta_window"
    unfolding difference_offsets_def by auto
  obtain c where c: "in_cycle cycle_ends c i" "lo = cycle_ends ! c" "hi = cycle_ends ! Suc c"
    using cycle_ranges_in_cycle [OF r(1,2,3)] by blast
  have "in_cycle cycle_ends c j"
    using c r(5,6) unfolding in_cycle_def by simp
  then show ?thesis using r c(1) by blast
qed

lemma in_cycle_unique:
  assumes "sorted cycle_ends" and "in_cycle cycle_ends c k" and "in_cycle cycle_ends c' k"
  shows "c = c'"
proof (rule ccontr)
  assume "c \<noteq> c'"
  then consider "Suc c \<le> c'" | "Suc c' \<le> c" by linarith
  then show False
  proof cases
    case 1
    then have "cycle_ends ! Suc c \<le> cycle_ends ! c'"
      using assms(1,3) unfolding in_cycle_def by (simp add: sorted_nth_mono)
    then show False using assms(2,3) unfolding in_cycle_def by linarith
  next
    case 2
    then have "cycle_ends ! Suc c' \<le> cycle_ends ! c"
      using assms(1,2) unfolding in_cycle_def by (simp add: sorted_nth_mono)
    then show False using assms(2,3) unfolding in_cycle_def by linarith
  qed
qed

lemma differences_by_offsets:
  "calculate_differences_2212 data1 data2 cycle_ends delta_window
   = map (\<lambda>(i, j). data2 ! j - data1 ! i)
       (difference_offsets data1 data2 cycle_ends delta_window)"
  unfolding calculate_differences_2212_def difference_offsets_def
  by (simp add: py_slice_nth map_concat filter_map o_def split_def)

text \<open>
  What \<open>calculate_differences_2212\<close> guarantees is about positions in the two series it is
  given: every difference it returns is \<open>data2 ! j - data1 ! i\<close> for a pair of positions
  \<open>(i, j)\<close> that lie in one and the same range of the boundary sequence; when the boundaries
  are monotonically increasing (as those of \<open>cycle_ends_of\<close> are) the ranges are disjoint, so
  the two positions lie in no two different ranges. Whether the positions are the records'
  rows is up to the caller.
\<close>

theorem differences_within_one_cycle:
  "calculate_differences_2212 data1 data2 cycle_ends delta_window
   = map (\<lambda>(i, j). data2 ! j - data1 ! i)
       (difference_offsets data1 data2 cycle_ends delta_window)
   \<and> (\<forall>(i, j) \<in> set (difference_offsets data1 data2 cycle_ends delta_window).
        i < length data1 \<and> j < length data2
        \<and> (\<exists>c. in_cycle cycle_ends c i \<and> in_cycle cycle_ends c j)
        \<and> (sorted cycle_ends \<longrightarrow>
             (\<forall>c c'. in_cycle cycle_ends c i \<and> in_cycle cycle_ends c' j \<longrightarrow> c = c')))"
proof -
  have "i < length data1 \<and> j < length data2
        \<and> (\<exists>c. in_cycle cycle_ends c i \<and> in_cycle cycle_ends c j)
        \<and> (sorted cycle_ends \<longrightarrow>
             (\<forall>c c'. in_cycle cycle_ends c i \<and> in_cycle cycle_ends c' j \<longrightarrow> c = c'))"
    if m: "(i, j) \<in> set (difference_offsets data1 data2 cycle_ends delta_window)" for i j
  proof -
    from difference_offsets_same_cycle [OF m]
    obtain c0 where c0: "i < length data1" "j < length data2"
      "in_cycle cycle_ends c0 i" "in_cycle cycle_ends c0 j"
      by blast
    have "c = c'" if "sorted cycle_ends" "in_cycle cycle_ends c i" "in_cycle cycle_ends c' j"
      for c c'
      using in_cycle_unique [OF that(1) that(2) c0(3)] in_cycle_unique [OF that(1) that(3) c0(4)]
      by simp
    then show ?thesis using c0 by blast
  qed
  then show ?thesis using differences_by_offsets by blast
qed

lemma example_cycle_ranges: "cycle_ranges [0, 3, 4] = [(0, 3), (3, 4)]"
  by (simp add: cycle_ranges_def)

lemma example_difference_offsets:
  "difference_offsets [100, 5100, 9999, 20000] [150, 5200, 9000, 20100] [0, 3, 4] 200
     = [(0, 0), (1, 1), (3, 3)]"
  by (simp add: difference_offsets_def example_cycle_ranges upt_conv_Cons)

lemma example_in_cycle:
  "in_cycle [0, 3, 4] 0 0 \<and> in_cycle [0, 3, 4] 0 1 \<and> in_cycle [0, 3, 4] 1 3
   \<and> \<not> in_cycle [0, 3, 4] 0 3 \<and> sorted [0, 3, 4 :: nat]"
  by (simp add: in_cycle_def)

theorem differences_within_one_cycle_witness:
  "calculate_differences_2212 [100, 5100, 9999, 20000] [150, 5200, 9000, 20100] [0, 3, 4] 200
     = [50, 100, 100]
   \<and> difference_offsets [100, 5100, 9999, 20000] [150, 5200, 9000, 20100] [0, 3, 4] 200
     = [(0, 0), (1, 1), (3, 3)]
   \<and> in_cycle [0, 3, 4] 0 0 \<and> in_cycle [0, 3, 4] 0 1 \<and> in_cycle [0, 3, 4] 1 3
   \<and> \<not> in_cycle [0, 3, 4] 0 3 \<and> sorted [0, 3, 4 :: nat]"
proof -
  have "calculate_differences_2212 [100, 5100, 9999, 20000] [150, 5200, 9000, 20100] [0, 3, 4] 200
        = map (\<lambda>(i, j). [150, 5200, 9000, 20100] ! j - [100, 5100, 9999, 20000] ! i)
            (difference_offsets [100, 5100, 9999, 20000] [150, 5200, 9000, 20100] [0, 3, 4] 200)"
    using differences_within_one_cycle [of "[100, 5100, 9999, 20000]"
        "[150, 5200, 9000, 20100]" "[0, 3, 4]" 200]
    by (rule conjunct1)
  then have "calculate_differences_2212 [100, 5100, 9999, 20000] [150, 5200, 9000, 20100]
               [0, 3, 4] 200 = [50, 100, 100]"
    unfolding example_difference_offsets by simp
  then show ?thesis
    using example_difference_offsets example_in_cycle by blast
qed

subsection \<open>The loop over the pixel pairs\<close>

lemma pair_loop_Inr:
  "pair_loop pc data_all file pixel0 data1 cycle_ends delta_window ps acc = Inr acc' \<Longrightarrow>
   acc' = acc @ map (\<lambda>pixel_j. ct_row_of file pixel0 pixel_j data1
                        (projr (pixel_series pc data_all pixel_j)) cycle_ends delta_window)
                (filter (\<lambda>pixel_j. pixel0 < pixel_j \<and> valid_count data1 \<noteq> 0) ps)"
proof (induction ps arbitrary: acc)
  case Nil
  then show ?case by simp
next
  case (Cons p ps)
  show ?case
  proof (cases "p \<le> pixel0")
    case True
    then show ?thesis using Cons by simp
  next
    case False
    from Cons.prems False obtain tdc2 pix_c2 ch2 where
      l: "pixel_lookup pc p = Inr (tdc2, pix_c2)" "get_chan data_all tdc2 = Inr ch2"
      by (auto split: sum.splits)
    let ?d2 = "gather (col1 ch2) (np_where (\<lambda>x. x = int pix_c2) (col0 ch2))"
    have s: "pixel_series pc data_all p = Inr ?d2"
      by (simp add: pixel_series_def l)
    show ?thesis
    proof (cases "valid_count data1 = 0")
      case True
      then show ?thesis using Cons False l by simp
    next
      case nz: False
      then have "pair_loop pc data_all file pixel0 data1 cycle_ends delta_window ps
              (acc @ [ct_row_of file pixel0 p data1 ?d2 cycle_ends delta_window]) = Inr acc'"
        using Cons.prems False l by (simp add: py_truediv_def ct_row_of_def Let_def)
      from Cons.IH [OF this] show ?thesis
        using False nz s by simp
    qed
  qed
qed

lemma pair_loop_error:
  "pair_loop pc data_all file pixel0 data1 cycle_ends delta_window ps acc = Inl e \<Longrightarrow>
   e = IndexError"
proof (induction ps arbitrary: acc)
  case Nil
  then show ?case by simp
next
  case (Cons p ps)
  then show ?case
    by (auto simp: pixel_lookup_def first_index_def get_chan_def py_truediv_def Let_def
        split: if_splits sum.splits list.splits prod.splits)
qed

lemma pair_loop_filter:
  "pair_loop pc data_all file pixel0 data1 cycle_ends delta_window ps acc
   = pair_loop pc data_all file pixel0 data1 cycle_ends delta_window
       (filter (\<lambda>p. pixel0 < p) ps) acc"
proof (induction ps arbitrary: acc)
  case Nil
  then show ?case by simp
next
  case (Cons p ps)
  then show ?case
    by (simp add: Let_def split: sum.splits prod.splits)
qed

lemma pair_loop_no_valid:
  assumes "valid_count data1 = 0"
    and "\<And>p. p \<in> set ps \<Longrightarrow> pixel0 < p \<Longrightarrow> \<exists>d. pixel_series pc data_all p = Inr d"
  shows "pair_loop pc data_all file pixel0 data1 cycle_ends delta_window ps acc = Inr acc"
  using assms(2)
proof (induction ps)
  case Nil
  then show ?case by simp
next
  case (Cons p ps)
  show ?case
  proof (cases "p \<le> pixel0")
    case True
    then show ?thesis using Cons by simp
  next
    case False
    then obtain d where "pixel_series pc data_all p = Inr d"
      using Cons.prems [of p] by auto
    then obtain tdc2 pix_c2 ch2 where
      "pixel_lookup pc p = Inr (tdc2, pix_c2)" "get_chan data_all tdc2 = Inr ch2"
      by (auto simp: pixel_series_def split: sum.splits)
    then show ?thesis using Cons False assms(1) by simp
  qed
qed

subsection \<open>The loop over the files\<close>

lemma file_body_Inr:
  assumes "file_body pc pixels delta_window file data_all acc = Inr acc'"
  shows "\<exists>pixel0 data1. first_index pixels = Inr pixel0
           \<and> pixel_series pc data_all pixel0 = Inr data1
           \<and> data_all \<noteq> []
           \<and> acc' = acc @ map (\<lambda>pixel_j. ct_row_of file pixel0 pixel_j data1
                                   (projr (pixel_series pc data_all pixel_j))
                                   (cycle_ends_of (data_all ! 0)) delta_window)
                           (filter (\<lambda>pixel_j. pixel0 < pixel_j \<and> valid_count data1 \<noteq> 0)
                                   (tl pixels))"
proof -
  from assms obtain pixel0 tdc1 pix_c1 ch1 ch0 where
    l: "first_index pixels = Inr pixel0" "pixel_lookup pc pixel0 = Inr (tdc1, pix_c1)"
       "get_chan data_all tdc1 = Inr ch1" "get_chan data_all 0 = Inr ch0"
    unfolding file_body_def by (auto simp: Let_def split: sum.splits)
  let ?d1 = "gather (col1 ch1) (np_where (\<lambda>x. x = int pix_c1) (col0 ch1))"
  have s: "pixel_series pc data_all pixel0 = Inr ?d1"
    by (simp add: pixel_series_def l)
  have c: "data_all \<noteq> []" "ch0 = data_all ! 0"
    using l(4) by (auto simp: get_chan_def split: if_splits)
  have "pair_loop pc data_all file pixel0 ?d1 (cycle_ends_of (data_all ! 0)) delta_window
          (tl pixels) acc = Inr acc'"
    using assms l c unfolding file_body_def by (simp add: Let_def)
  from pair_loop_Inr [OF this] s l(1) c(1) show ?thesis by blast
qed

lemma first_index_hd: "first_index xs = Inr x \<Longrightarrow> hd xs = x \<and> xs \<noteq> []"
  by (cases xs) (simp_all add: first_index_def)

lemma file_body_rows:
  assumes "file_body pc pixels delta_window file data_all acc = Inr acc'"
  shows "acc' = acc @ file_rows pc pixels delta_window file data_all"
proof -
  from file_body_Inr [OF assms] obtain pixel0 data1 where
    r: "first_index pixels = Inr pixel0" "pixel_series pc data_all pixel0 = Inr data1"
       "acc' = acc @ map (\<lambda>pixel_j. ct_row_of file pixel0 pixel_j data1
                                   (projr (pixel_series pc data_all pixel_j))
                                   (cycle_ends_of (data_all ! 0)) delta_window)
                           (filter (\<lambda>pixel_j. pixel0 < pixel_j \<and> valid_count data1 \<noteq> 0)
                                   (tl pixels))"
    by blast
  have "hd pixels = pixel0" using first_index_hd [OF r(1)] by simp
  then show ?thesis using r(2,3) by (simp add: file_rows_def)
qed

lemma file_body_error:
  "file_body pc pixels delta_window file data_all acc = Inl e \<Longrightarrow> e = IndexError"
  unfolding file_body_def
  by (auto simp: first_index_def pixel_lookup_def get_chan_def Let_def
      dest: pair_loop_error split: sum.splits list.splits if_splits prod.splits)

lemma unpack_log_io [simp]: "unpack_binary_data (log_io e w) = unpack_binary_data w"
  by (simp add: log_io_def)

lemma file_loop_Inr:
  assumes "pix_coor firmware_version = Some pc"
    and "file_loop firmware_version pixels delta_window files w acc = (Inr rows, w')"
  shows "rows = acc @ concat (map (\<lambda>f. file_rows pc pixels delta_window f
                                      (unpack_binary_data w f)) files)
         \<and> w' = w\<lparr>io_log := io_log w @ map Unpack files\<rparr>"
  using assms(2)
proof (induction files arbitrary: w acc)
  case Nil
  then show ?case by simp
next
  case (Cons f fs)
  from Cons.prems assms(1) obtain acc1 where
    b: "file_body pc pixels delta_window f (unpack_binary_data w f) acc = Inr acc1"
    and r: "file_loop firmware_version pixels delta_window fs (log_io (Unpack f) w) acc1
            = (Inr rows, w')"
    by (auto simp: Let_def split: sum.splits)
  from Cons.IH [OF r] file_body_rows [OF b] show ?case
    by (simp add: log_io_def)
qed

lemma file_loop_error:
  "file_loop firmware_version pixels delta_window files w acc = (Inl e, w') \<Longrightarrow>
   e = IndexError \<or> e = SystemExit"
proof (induction files arbitrary: w acc)
  case Nil
  then show ?case by simp
next
  case (Cons f fs)
  then show ?case
    by (auto simp: Let_def dest: file_body_error split: option.splits sum.splits)
qed

subsection \<open>Successful runs\<close>

lemma collect_cross_talk_Inr:
  assumes "collect_cross_talk w path pixels daughterboard_number motherboard_number
             firmware_version delta_window = (Inr (), w')"
  shows "\<exists>pc. pix_coor firmware_version = Some pc \<and> dat_files w \<noteq> []
           \<and> w' = to_csv (csv_name (dat_files w))
                    (concat (map (\<lambda>f. file_rows pc pixels delta_window f
                                         (unpack_binary_data w f)) (dat_files w)))
                    (log_io (Glob (''*'' @ csv_name (dat_files w) @ ''*''))
                       (enter_ct_dir
                          (w\<lparr>io_log := io_log w @ [Chdir path, Glob ''*.dat*'']
                                          @ map Unpack (dat_files w)\<rparr>)))"
proof -
  let ?w1 = "log_io (Glob ''*.dat*'') (log_io (Chdir path) w)"
  from assms obtain rows w2 where
    l: "file_loop firmware_version pixels delta_window (dat_files w) ?w1 [] = (Inr rows, w2)"
    and ne: "dat_files w \<noteq> []"
    and w': "w' = to_csv (csv_name (dat_files w)) rows
                   (log_io (Glob (''*'' @ csv_name (dat_files w) @ ''*'')) (enter_ct_dir w2))"
    unfolding collect_cross_talk_def
    by (auto simp: Let_def log_io_def split: if_splits prod.splits sum.splits)
  have "pix_coor firmware_version \<noteq> None"
  proof
    assume "pix_coor firmware_version = None"
    from file_loop_unrecognized [OF this ne] l show False by simp
  qed
  then obtain pc where pc: "pix_coor firmware_version = Some pc" by blast
  from file_loop_Inr [OF pc l]
  have "rows = concat (map (\<lambda>f. file_rows pc pixels delta_window f (unpack_binary_data w f))
                        (dat_files w))"
    and "w2 = w\<lparr>io_log := io_log w @ [Chdir path, Glob ''*.dat*''] @ map Unpack (dat_files w)\<rparr>"
    by (simp_all add: log_io_def)
  then show ?thesis using pc ne w' by blast
qed

lemma unpack_calls_append:
  "unpack_calls (w\<lparr>io_log := io_log w @ es\<rparr>) = unpack_calls w + length (filter is_unpack es)"
  by (simp add: unpack_calls_def)

lemma filter_is_unpack_map: "filter is_unpack (map Unpack fs) = map Unpack fs"
  by (induction fs) simp_all

lemma unpack_calls_to_csv [simp]: "unpack_calls (to_csv n rows w) = unpack_calls w"
  by (simp add: to_csv_def log_io_def unpack_calls_def)

lemma unpack_calls_enter [simp]: "unpack_calls (enter_ct_dir w) = unpack_calls w"
  by (simp add: enter_ct_dir_def log_io_def unpack_calls_def)

lemma unpack_calls_glob [simp]: "unpack_calls (log_io (Glob g) w) = unpack_calls w"
  by (simp add: log_io_def unpack_calls_def)

lemma ct_dir_to_csv: "map_of (ct_dir (to_csv n rows w)) n = Some rows"
  by (simp add: to_csv_def log_io_def)

text \<open>
  C1, as the code has it. \<^verbatim>\<open>collect_cross_talk\<close> takes no \<^verbatim>\<open>rewrite\<close> flag and its two
  branches on the existence of the artifact write the same file. Every call that completes
  has run the unpack step once for each data file, whatever the output directory held
  before, and leaves the freshly computed table under the artifact's name.
\<close>

theorem collect_cross_talk_always_recomputes:
  assumes "collect_cross_talk w path pixels daughterboard_number motherboard_number
             firmware_version delta_window = (Inr (), w')"
  shows "unpack_calls w' = unpack_calls w + length (dat_files w)
       \<and> 0 < length (dat_files w)
       \<and> (\<exists>pc. pix_coor firmware_version = Some pc
             \<and> map_of (ct_dir w') (csv_name (dat_files w))
               = Some (concat (map (\<lambda>f. file_rows pc pixels delta_window f
                                           (unpack_binary_data w f)) (dat_files w))))"
proof -
  from collect_cross_talk_Inr [OF assms] obtain pc where
    pc: "pix_coor firmware_version = Some pc" and ne: "dat_files w \<noteq> []"
    and w': "w' = to_csv (csv_name (dat_files w))
                    (concat (map (\<lambda>f. file_rows pc pixels delta_window f
                                         (unpack_binary_data w f)) (dat_files w)))
                    (log_io (Glob (''*'' @ csv_name (dat_files w) @ ''*''))
                       (enter_ct_dir
                          (w\<lparr>io_log := io_log w @ [Chdir path, Glob ''*.dat*'']
                                          @ map Unpack (dat_files w)\<rparr>)))"
    by blast
  have "unpack_calls w' = unpack_calls w + length (dat_files w)"
    unfolding w' by (simp add: unpack_calls_append filter_is_unpack_map)
  moreover have "map_of (ct_dir w') (csv_name (dat_files w))
               = Some (concat (map (\<lambda>f. file_rows pc pixels delta_window f
                                           (unpack_binary_data w f)) (dat_files w)))"
    unfolding w' by (rule ct_dir_to_csv)
  ultimately show ?thesis using pc ne by blast
qed

subsection \<open>The example acquisition, run twice\<close>

lemma example_series_0:
  "pixel_series (reshape 64 4 (arange 256)) example_data 0 = Inr [100, 5100]"
  by (simp add: pixel_series_def pixel_lookup_2212b get_chan_def example_data_def
      np_where_def gather_def col0_def col1_def upt_conv_Cons)

lemma example_series_1:
  "pixel_series (reshape 64 4 (arange 256)) example_data 1 = Inr [150, 5200]"
  by (simp add: pixel_series_def pixel_lookup_2212b get_chan_def example_data_def
      np_where_def gather_def col0_def col1_def upt_conv_Cons)

lemma example_cycle_ends: "cycle_ends_of (example_data ! 0) = [0, 2, 5]"
  by (simp add: cycle_ends_of_def example_data_def np_insert_def np_where_def col0_def
      upt_conv_Cons)

lemma example_deltas:
  "calculate_differences_2212 [100, 5100] [150, 5200] [0, 2, 5] 10000 = [50, 5100, - 4950, 100]"
  by (simp add: calculate_differences_2212_def cycle_ranges_def py_slice_def)

lemma example_valid: "valid_count [100, 5100] = 2" "valid_count [150, 5200] = 2"
  by (simp_all add: valid_count_def np_where_def upt_conv_Cons)

lemma example_file_rows:
  "file_rows (reshape 64 4 (arange 256)) [0, 1] 10000 ''a.dat'' example_data
   = [\<lparr>File = ''a.dat'', Pixel_1 = 0, Pixel_2 = 1, Timestamps_1 = 2, Timestamps_2 = 2,
       Deltas = 4, CT = 100\<rparr>]"
  by (simp add: file_rows_def example_series_0 example_series_1 example_cycle_ends
      ct_row_of_def example_deltas example_valid)

lemma example_file_body:
  "file_body (reshape 64 4 (arange 256)) [0, 1] 10000 ''a.dat'' example_data acc
   = Inr (acc @ [\<lparr>File = ''a.dat'', Pixel_1 = 0, Pixel_2 = 1, Timestamps_1 = 2,
                   Timestamps_2 = 2, Deltas = 4, CT = 100\<rparr>])"
proof -
  have g: "get_chan example_data 0 = Inr (example_data ! 0)"
    by (simp add: get_chan_def example_data_def)
  have d0: "gather (col1 (example_data ! 0)) (np_where (\<lambda>x. x = 0) (col0 (example_data ! 0)))
            = [100, 5100]"
    by (simp add: example_data_def np_where_def gather_def col0_def col1_def upt_conv_Cons)
  have d1: "gather (col1 (example_data ! 0))
              (np_where (\<lambda>x. x = 1) (col0 (example_data ! 0))) = [150, 5200]"
    by (simp add: example_data_def np_where_def gather_def col0_def col1_def upt_conv_Cons)
  show ?thesis
    unfolding file_body_def
    by (simp add: first_index_def pixel_lookup_2212b g d0 d1 example_cycle_ends example_deltas
        example_valid py_truediv_def Let_def)
qed

lemma example_run_from:
  assumes "path_exists w" and "dat_files w = [''a.dat'']"
    and "unpack_binary_data w = (\<lambda>f. example_data)"
  shows "collect_cross_talk w ''data'' [0, 1] (PyStr ''NL11'') (PyStr ''#33'')
           (PyStr ''2212b'') 10000
         = (Inr (),
            to_csv ''CT_data_a.dat-a.dat.csv''
              [\<lparr>File = ''a.dat'', Pixel_1 = 0, Pixel_2 = 1, Timestamps_1 = 2,
                 Timestamps_2 = 2, Deltas = 4, CT = 100\<rparr>]
              (log_io (Glob ''*CT_data_a.dat-a.dat.csv*'')
                 (enter_ct_dir
                    (log_io (Unpack ''a.dat'')
                       (log_io (Glob ''*.dat*'') (log_io (Chdir ''data'') w))))))"
  unfolding collect_cross_talk_def
  using assms
  by (simp add: pix_coor_2212b example_file_body csv_name_def log_io_def)

lemma example_run:
  "collect_cross_talk example_world ''data'' [0, 1] (PyStr ''NL11'') (PyStr ''#33'')
     (PyStr ''2212b'') 10000 = (Inr (), first_run_world)"
proof -
  have "collect_cross_talk example_world ''data'' [0, 1] (PyStr ''NL11'') (PyStr ''#33'')
          (PyStr ''2212b'') 10000
        = (Inr (),
            to_csv ''CT_data_a.dat-a.dat.csv''
              [\<lparr>File = ''a.dat'', Pixel_1 = 0, Pixel_2 = 1, Timestamps_1 = 2,
                 Timestamps_2 = 2, Deltas = 4, CT = 100\<rparr>]
              (log_io (Glob ''*CT_data_a.dat-a.dat.csv*'')
                 (enter_ct_dir
                    (log_io (Unpack ''a.dat'')
                       (log_io (Glob ''*.dat*'') (log_io (Chdir ''data'') example_world))))))"
    by (rule example_run_from) (simp_all add: example_world_def)
  then show ?thesis
    by (simp add: first_run_world_def example_world_def log_io_def enter_ct_dir_def to_csv_def)
qed

lemma example_rerun:
  "fst (collect_cross_talk first_run_world ''data'' [0, 1] (PyStr ''NL11'') (PyStr ''#33'')
          (PyStr ''2212b'') 10000) = Inr ()
   \<and> unpack_calls (snd (collect_cross_talk first_run_world ''data'' [0, 1] (PyStr ''NL11'')
          (PyStr ''#33'') (PyStr ''2212b'') 10000)) = 2"
proof -
  have "collect_cross_talk first_run_world ''data'' [0, 1] (PyStr ''NL11'') (PyStr ''#33'')
          (PyStr ''2212b'') 10000
        = (Inr (),
            to_csv ''CT_data_a.dat-a.dat.csv''
              [\<lparr>File = ''a.dat'', Pixel_1 = 0, Pixel_2 = 1, Timestamps_1 = 2,
                 Timestamps_2 = 2, Deltas = 4, CT = 100\<rparr>]
              (log_io (Glob ''*CT_data_a.dat-a.dat.csv*'')
                 (enter_ct_dir
                    (log_io (Unpack ''a.dat'')
                       (log_io (Glob ''*.dat*'') (log_io (Chdir ''data'') first_run_world))))))"
    by (rule example_run_from) (simp_all add: first_run_world_def)
  then show ?thesis
    by (simp add: first_run_world_def log_io_def enter_ct_dir_def to_csv_def unpack_calls_def)
qed

text \<open>
  C1 as stated fails. \<^verbatim>\<open>collect_cross_talk\<close> has no \<^verbatim>\<open>rewrite\<close> parameter and never looks for
  the artifact before computing: run on the example directory, it leaves the artifact
  \<^verbatim>\<open>CT_data_a.dat-a.dat.csv\<close> behind after one call of the unpack step; run again on the world
  it left, where \<^verbatim>\<open>glob\<close> finds the artifact, it succeeds again and the unpack step has run a
  second time.
\<close>

theorem rerun_unpacks_again:
  "collect_cross_talk example_world ''data'' [0, 1] (PyStr ''NL11'') (PyStr ''#33'')
     (PyStr ''2212b'') 10000 = (Inr (), first_run_world)
   \<and> glob_ct first_run_world (csv_name (dat_files first_run_world)) \<noteq> []
   \<and> unpack_calls first_run_world = 1
   \<and> fst (collect_cross_talk first_run_world ''data'' [0, 1] (PyStr ''NL11'') (PyStr ''#33'')
          (PyStr ''2212b'') 10000) = Inr ()
   \<and> unpack_calls (snd (collect_cross_talk first_run_world ''data'' [0, 1] (PyStr ''NL11'')
          (PyStr ''#33'') (PyStr ''2212b'') 10000)) = 2"
proof -
  have "glob_ct first_run_world (csv_name (dat_files first_run_world)) \<noteq> []"
    by (simp add: glob_ct_def first_run_world_def csv_name_def)
  moreover have "unpack_calls first_run_world = 1"
    by (simp add: unpack_calls_def first_run_world_def)
  ultimately show ?thesis using example_run example_rerun by blast
qed

theorem collect_cross_talk_always_recomputes_witness:
  "unpack_calls first_run_world = unpack_calls example_world + length (dat_files example_world)
   \<and> 0 < length (dat_files example_world)
   \<and> map_of (ct_dir first_run_world) (csv_name (dat_files example_world))
     = Some [\<lparr>File = ''a.dat'', Pixel_1 = 0, Pixel_2 = 1, Timestamps_1 = 2,
               Timestamps_2 = 2, Deltas = 4, CT = 100\<rparr>]"
  using collect_cross_talk_always_recomputes [OF example_run]
  by (simp add: first_run_world_def example_world_def csv_name_def)

subsection \<open>Division by the timestamp counts\<close>

lemma collect_cross_talk_error:
  assumes "collect_cross_talk w path pixels daughterboard_number motherboard_number
             firmware_version delta_window = (Inl e, w')"
  shows "e \<noteq> ZeroDivisionError"
proof -
  have "e = TypeError \<or> e = FileNotFoundError \<or> e = IndexError \<or> e = SystemExit"
    using assms unfolding collect_cross_talk_def
    by (auto simp: Let_def dest: file_loop_error split: if_splits prod.splits sum.splits)
  then show ?thesis by auto
qed

lemma file_rows_denominator:
  assumes "r \<in> set (file_rows pc pixels delta_window file data_all)"
  shows "1 \<le> Timestamps_1 r \<and> 0 < Timestamps_1 r + Timestamps_2 r
         \<and> CT r = real (Deltas r * 100) / real (Timestamps_1 r + Timestamps_2 r)"
  using assms unfolding file_rows_def ct_row_of_def by auto

lemma file_rows_pixels:
  assumes "r \<in> set (file_rows pc pixels delta_window file data_all)"
  shows "File r = file \<and> Pixel_1 r = hd pixels \<and> Pixel_1 r < Pixel_2 r
         \<and> Pixel_2 r \<in> set (tl pixels)"
  using assms unfolding file_rows_def ct_row_of_def by auto

text \<open>
  C9. No call of \<^verbatim>\<open>collect_cross_talk\<close> ends in ZeroDivisionError, and in every row of the
  table written by a call that completes the first count is at least 1, the denominator
  \<open>Timestamps_1 + Timestamps_2\<close> is positive, and \<open>CT\<close> is \<open>Deltas * 100\<close> divided by it.
\<close>

theorem cross_talk_denominator_positive:
  "fst (collect_cross_talk w path pixels daughterboard_number motherboard_number
          firmware_version delta_window) \<noteq> Inl ZeroDivisionError
   \<and> (\<forall>w'. collect_cross_talk w path pixels daughterboard_number motherboard_number
              firmware_version delta_window = (Inr (), w') \<longrightarrow>
         (\<exists>rows. map_of (ct_dir w') (csv_name (dat_files w)) = Some rows
            \<and> (\<forall>r \<in> set rows.
                  1 \<le> Timestamps_1 r \<and> 0 < Timestamps_1 r + Timestamps_2 r
                  \<and> CT r = real (Deltas r * 100) / real (Timestamps_1 r + Timestamps_2 r))))"
proof (intro conjI allI impI)
  show "fst (collect_cross_talk w path pixels daughterboard_number motherboard_number
          firmware_version delta_window) \<noteq> Inl ZeroDivisionError"
    using collect_cross_talk_error
    by (metis prod.collapse)
next
  fix w'
  assume run: "collect_cross_talk w path pixels daughterboard_number motherboard_number
              firmware_version delta_window = (Inr (), w')"
  from collect_cross_talk_Inr [OF run] obtain pc where
    w': "w' = to_csv (csv_name (dat_files w))
                    (concat (map (\<lambda>f. file_rows pc pixels delta_window f
                                         (unpack_binary_data w f)) (dat_files w)))
                    (log_io (Glob (''*'' @ csv_name (dat_files w) @ ''*''))
                       (enter_ct_dir
                          (w\<lparr>io_log := io_log w @ [Chdir path, Glob ''*.dat*'']
                                          @ map Unpack (dat_files w)\<rparr>)))"
    by blast
  let ?rows = "concat (map (\<lambda>f. file_rows pc pixels delta_window f
                                         (unpack_binary_data w f)) (dat_files w))"
  have "map_of (ct_dir w') (csv_name (dat_files w)) = Some ?rows"
    unfolding w' by (rule ct_dir_to_csv)
  moreover have "\<forall>r \<in> set ?rows.
                  1 \<le> Timestamps_1 r \<and> 0 < Timestamps_1 r + Timestamps_2 r
                  \<and> CT r = real (Deltas r * 100) / real (Timestamps_1 r + Timestamps_2 r)"
    using file_rows_denominator by auto
  ultimately show "\<exists>rows. map_of (ct_dir w') (csv_name (dat_files w)) = Some rows
            \<and> (\<forall>r \<in> set rows.
                  1 \<le> Timestamps_1 r \<and> 0 < Timestamps_1 r + Timestamps_2 r
                  \<and> CT r = real (Deltas r * 100) / real (Timestamps_1 r + Timestamps_2 r))"
    by blast
qed

theorem cross_talk_denominator_positive_witness:
  "fst (collect_cross_talk example_world ''data'' [0, 1] (PyStr ''NL11'') (PyStr ''#33'')
          (PyStr ''2212b'') 10000) = Inr ()
   \<and> map_of (ct_dir first_run_world) ''CT_data_a.dat-a.dat.csv''
     = Some [\<lparr>File = ''a.dat'', Pixel_1 = 0, Pixel_2 = 1, Timestamps_1 = 2,
               Timestamps_2 = 2, Deltas = 4, CT = 100\<rparr>]
   \<and> (0::nat) < 2 + 2 \<and> (100::real) = real (4 * 100) / real (2 + 2)"
  using cross_talk_denominator_positive [of example_world "''data''" "[0, 1]"
      "PyStr ''NL11''" "PyStr ''#33''" "PyStr ''2212b''" 10000] example_run
  by (simp add: first_run_world_def)

subsection \<open>Pairs that are skipped\<close>

lemma file_body_filter:
  "file_body pc (pixel0 # ps) delta_window file data_all acc
   = file_body pc (pixel0 # filter (\<lambda>p. pixel0 < p) ps) delta_window file data_all acc"
  unfolding file_body_def
  by (simp add: first_index_def Let_def pair_loop_filter [of _ _ _ pixel0 _ _ _ ps]
      split: sum.splits prod.splits)

lemma file_loop_filter:
  "file_loop firmware_version (pixel0 # ps) delta_window files w acc
   = file_loop firmware_version (pixel0 # filter (\<lambda>p. pixel0 < p) ps) delta_window files w acc"
proof (induction files arbitrary: w acc)
  case Nil
  then show ?case by simp
next
  case (Cons f fs)
  show ?case
  proof (cases "pix_coor firmware_version")
    case None
    then show ?thesis by simp
  next
    case (Some pc)
    show ?thesis
    proof (cases "file_body pc (pixel0 # ps) delta_window f (unpack_binary_data w f) acc")
      case (Inl e)
      then show ?thesis
        using Some file_body_filter [of pc pixel0 ps delta_window f "unpack_binary_data w f" acc]
        by simp
    next
      case (Inr acc1)
      then show ?thesis
        using Some Cons.IH [of "log_io (Unpack f) w" acc1]
          file_body_filter [of pc pixel0 ps delta_window f "unpack_binary_data w f" acc]
        by simp
    qed
  qed
qed

text \<open>
  C4. The later pixels that do not exceed the first one leave no trace: the whole call, its
  result (error included), its table and its I/O log, is the same as the call without them.
  In every row of the table written by a call that completes, \<open>Pixel_1\<close> is the first pixel
  and \<open>Pixel_2\<close> is a later pixel of the list, above it.
\<close>

theorem pairs_not_above_first_pixel_skipped:
  "collect_cross_talk w path (pixel0 # ps) daughterboard_number motherboard_number
     firmware_version delta_window
   = collect_cross_talk w path (pixel0 # filter (\<lambda>p. pixel0 < p) ps) daughterboard_number
       motherboard_number firmware_version delta_window
   \<and> (\<forall>w'. collect_cross_talk w path (pixel0 # ps) daughterboard_number motherboard_number
              firmware_version delta_window = (Inr (), w') \<longrightarrow>
         (\<exists>rows. map_of (ct_dir w') (csv_name (dat_files w)) = Some rows
            \<and> (\<forall>r \<in> set rows. Pixel_1 r = pixel0 \<and> pixel0 < Pixel_2 r \<and> Pixel_2 r \<in> set ps)))"
proof (intro conjI allI impI)
  show "collect_cross_talk w path (pixel0 # ps) daughterboard_number motherboard_number
     firmware_version delta_window
   = collect_cross_talk w path (pixel0 # filter (\<lambda>p. pixel0 < p) ps) daughterboard_number
       motherboard_number firmware_version delta_window"
    unfolding collect_cross_talk_def
    by (simp only: file_loop_filter [of firmware_version pixel0 ps])
next
  fix w'
  assume run: "collect_cross_talk w path (pixel0 # ps) daughterboard_number motherboard_number
              firmware_version delta_window = (Inr (), w')"
  from collect_cross_talk_Inr [OF run] obtain pc where
    w': "w' = to_csv (csv_name (dat_files w))
                    (concat (map (\<lambda>f. file_rows pc (pixel0 # ps) delta_window f
                                         (unpack_binary_data w f)) (dat_files w)))
                    (log_io (Glob (''*'' @ csv_name (dat_files w) @ ''*''))
                       (enter_ct_dir
                          (w\<lparr>io_log := io_log w @ [Chdir path, Glob ''*.dat*'']
                                          @ map Unpack (dat_files w)\<rparr>)))"
    by blast
  let ?rows = "concat (map (\<lambda>f. file_rows pc (pixel0 # ps) delta_window f
                                         (unpack_binary_data w f)) (dat_files w))"
  have "map_of (ct_dir w') (csv_name (dat_files w)) = Some ?rows"
    unfolding w' by (rule ct_dir_to_csv)
  moreover have "\<forall>r \<in> set ?rows. Pixel_1 r = pixel0 \<and> pixel0 < Pixel_2 r \<and> Pixel_2 r \<in> set ps"
    using file_rows_pixels [of _ pc "pixel0 # ps"] by fastforce
  ultimately show "\<exists>rows. map_of (ct_dir w') (csv_name (dat_files w)) = Some rows
            \<and> (\<forall>r \<in> set rows. Pixel_1 r = pixel0 \<and> pixel0 < Pixel_2 r \<and> Pixel_2 r \<in> set ps)"
    by blast
qed

theorem pairs_not_above_first_pixel_skipped_witness:
  "collect_cross_talk example_world ''data'' [0, 0, 1, - 3] (PyStr ''NL11'') (PyStr ''#33'')
     (PyStr ''2212b'') 10000 = (Inr (), first_run_world)
   \<and> map_of (ct_dir first_run_world) ''CT_data_a.dat-a.dat.csv''
     = Some [\<lparr>File = ''a.dat'', Pixel_1 = 0, Pixel_2 = 1, Timestamps_1 = 2,
               Timestamps_2 = 2, Deltas = 4, CT = 100\<rparr>]"
  using pairs_not_above_first_pixel_skipped [of example_world "''data''" 0 "[0, 1, - 3]"
      "PyStr ''NL11''" "PyStr ''#33''" "PyStr ''2212b''" 10000] example_run
  by (simp add: first_run_world_def)

subsection \<open>Files without valid timestamps of the first pixel\<close>

lemma pixel_lookup_in_range:
  assumes "pix_coor firmware_version = Some pc" and "0 \<le> p" and "p < 256"
  shows "\<exists>tdc pix_c. pixel_lookup pc p = Inr (tdc, pix_c) \<and> tdc < 64 \<and> pix_c < 4"
proof -
  from assms(1) consider
      "pc = np_T (reshape 4 64 (arange 256))" | "pc = reshape 64 4 (arange 256)"
    unfolding pix_coor_def by (auto split: if_splits)
  then show ?thesis
  proof cases
    case 1
    then show ?thesis using assms(2,3) by (simp add: pixel_lookup_2212s)
  next
    case 2
    then show ?thesis using assms(2,3) by (simp add: pixel_lookup_2212b)
  qed
qed

lemma pixel_series_in_range:
  assumes "pix_coor firmware_version = Some pc" and "0 \<le> p" and "p < 256"
    and "length data_all = 64"
  shows "\<exists>d. pixel_series pc data_all p = Inr d"
proof -
  from pixel_lookup_in_range [OF assms(1,2,3)] obtain tdc pix_c where
    "pixel_lookup pc p = Inr (tdc, pix_c)" "tdc < 64"
    by blast
  then show ?thesis using assms(4) by (simp add: pixel_series_def get_chan_def)
qed

lemma file_body_no_valid:
  assumes fw: "pix_coor firmware_version = Some pc"
    and ne: "pixels \<noteq> []" and rng: "\<forall>p \<in> set pixels. 0 \<le> p \<and> p < 256"
    and len: "length data_all = 64"
    and zero: "valid_count (projr (pixel_series pc data_all (hd pixels))) = 0"
  shows "file_body pc pixels delta_window file data_all acc = Inr acc"
proof -
  have h: "first_index pixels = Inr (hd pixels)"
    using ne by (cases pixels) (simp_all add: first_index_def)
  have "hd pixels \<in> set pixels" using ne by simp
  then have r0: "0 \<le> hd pixels" "hd pixels < 256" using rng by auto
  from pixel_lookup_in_range [OF fw r0] obtain tdc1 pix_c1 where
    l: "pixel_lookup pc (hd pixels) = Inr (tdc1, pix_c1)" "tdc1 < 64"
    by blast
  have g: "get_chan data_all tdc1 = Inr (data_all ! tdc1)" "get_chan data_all 0 = Inr (data_all ! 0)"
    using l(2) len by (simp_all add: get_chan_def)
  let ?d1 = "gather (col1 (data_all ! tdc1)) (np_where (\<lambda>x. x = int pix_c1) (col0 (data_all ! tdc1)))"
  have "pixel_series pc data_all (hd pixels) = Inr ?d1"
    by (simp add: pixel_series_def l g)
  then have z: "valid_count ?d1 = 0" using zero by simp
  have "\<exists>d. pixel_series pc data_all p = Inr d" if "p \<in> set (tl pixels)" for p
  proof -
    from that have "p \<in> set pixels" using ne by (cases pixels) simp_all
    then have "0 \<le> p" "p < 256" using rng by auto
    then show ?thesis using pixel_series_in_range [OF fw _ _ len] by blast
  qed
  then have "pair_loop pc data_all file (hd pixels) ?d1 (cycle_ends_of (data_all ! 0))
               delta_window (tl pixels) acc = Inr acc"
    using pair_loop_no_valid [OF z] by blast
  then show ?thesis
    unfolding file_body_def by (simp add: h l g Let_def)
qed

text \<open>
  C5. Let the firmware be recognized, the pixels be pixel numbers (0..255) and the file unpack
  into the 64 channels. If the first pixel has no valid (strictly positive) timestamp in the
  file, the file adds no row for any pair, no error is raised, and the file loop goes on
  with the remaining files and the rows collected so far.
\<close>

theorem file_without_valid_timestamps_skipped:
  assumes "pix_coor firmware_version = Some pc"
    and "pixels \<noteq> []" and "\<forall>p \<in> set pixels. 0 \<le> p \<and> p < 256"
    and "length (unpack_binary_data w file) = 64"
    and "valid_count (projr (pixel_series pc (unpack_binary_data w file) (hd pixels))) = 0"
  shows "file_loop firmware_version pixels delta_window (file # files) w acc
         = file_loop firmware_version pixels delta_window files (log_io (Unpack file) w) acc
       \<and> file_body pc pixels delta_window file (unpack_binary_data w file) acc = Inr acc
       \<and> file_rows pc pixels delta_window file (unpack_binary_data w file) = []"
proof -
  have b: "file_body pc pixels delta_window file (unpack_binary_data w file) acc = Inr acc"
    using assms by (rule file_body_no_valid)
  then have "file_loop firmware_version pixels delta_window (file # files) w acc
         = file_loop firmware_version pixels delta_window files (log_io (Unpack file) w) acc"
    using assms(1) by simp
  moreover have "file_rows pc pixels delta_window file (unpack_binary_data w file) = []"
    using assms(5) by (simp add: file_rows_def)
  ultimately show ?thesis using b by blast
qed

lemma dark_series_0:
  "pixel_series (reshape 64 4 (arange 256)) dark_data 0 = Inr [- 1, - 1]"
  by (simp add: pixel_series_def pixel_lookup_2212b get_chan_def dark_data_def
      np_where_def gather_def col0_def col1_def upt_conv_Cons)

lemma dark_valid: "valid_count [- 1, - 1] = 0"
  by (simp add: valid_count_def np_where_def upt_conv_Cons)

lemma example_file_loop:
  assumes "unpack_binary_data w ''a.dat'' = example_data"
  shows "file_loop (PyStr ''2212b'') [0, 1] 10000 [''a.dat''] w acc
         = (Inr (acc @ [\<lparr>File = ''a.dat'', Pixel_1 = 0, Pixel_2 = 1, Timestamps_1 = 2,
                          Timestamps_2 = 2, Deltas = 4, CT = 100\<rparr>]),
            log_io (Unpack ''a.dat'') w)"
  using assms by (simp add: pix_coor_2212b example_file_body)

theorem file_without_valid_timestamps_skipped_witness:
  "file_loop (PyStr ''2212b'') [0, 1] 10000 [''dark.dat'', ''a.dat''] two_file_world []
   = (Inr [\<lparr>File = ''a.dat'', Pixel_1 = 0, Pixel_2 = 1, Timestamps_1 = 2,
             Timestamps_2 = 2, Deltas = 4, CT = 100\<rparr>],
      two_file_world\<lparr>io_log := [Unpack ''dark.dat'', Unpack ''a.dat'']\<rparr>)
   \<and> valid_count (projr (pixel_series (reshape 64 4 (arange 256))
                           (unpack_binary_data two_file_world ''dark.dat'') 0)) = 0"
proof -
  have u: "unpack_binary_data two_file_world ''dark.dat'' = dark_data"
    by (simp add: two_file_world_def)
  have z: "valid_count (projr (pixel_series (reshape 64 4 (arange 256))
                           (unpack_binary_data two_file_world ''dark.dat'') (hd [0, 1]))) = 0"
    by (simp add: u dark_series_0 dark_valid)
  have "file_loop (PyStr ''2212b'') [0, 1] 10000 (''dark.dat'' # [''a.dat'']) two_file_world []
        = file_loop (PyStr ''2212b'') [0, 1] 10000 [''a.dat'']
            (log_io (Unpack ''dark.dat'') two_file_world) []"
    using file_without_valid_timestamps_skipped [OF pix_coor_2212b _ _ _ z, of 10000 "[''a.dat'']" "[]"]
    by (simp add: u dark_data_def)
  also have "\<dots> = (Inr ([] @ [\<lparr>File = ''a.dat'', Pixel_1 = 0, Pixel_2 = 1, Timestamps_1 = 2,
                          Timestamps_2 = 2, Deltas = 4, CT = 100\<rparr>]),
            log_io (Unpack ''a.dat'') (log_io (Unpack ''dark.dat'') two_file_world))"
    by (rule example_file_loop) (simp add: two_file_world_def)
  finally show ?thesis using z
    by (simp add: log_io_def two_file_world_def)
qed

subsection \<open>One boundary sequence per file\<close>

lemma file_loop_channels:
  assumes "pix_coor firmware_version = Some pc"
    and "file_loop firmware_version pixels delta_window files w acc = (Inr rows, w')"
  shows "\<forall>f \<in> set files. unpack_binary_data w f \<noteq> []"
  using assms(2)
proof (induction files arbitrary: w acc)
  case Nil
  then show ?case by simp
next
  case (Cons f fs)
  from Cons.prems assms(1) obtain acc1 where
    b: "file_body pc pixels delta_window f (unpack_binary_data w f) acc = Inr acc1"
    and r: "file_loop firmware_version pixels delta_window fs (log_io (Unpack f) w) acc1
            = (Inr rows, w')"
    by (auto simp: Let_def split: sum.splits)
  from file_body_Inr [OF b] have "unpack_binary_data w f \<noteq> []" by blast
  moreover from Cons.IH [OF r] have "\<forall>f \<in> set fs. unpack_binary_data w f \<noteq> []" by simp
  ultimately show ?case by simp
qed

text \<open>
  C10. In a file loop that completes, every file has a channel 0, and the rows of a file are
  one row per later pixel above the first (none when the first pixel has no valid
  timestamp), each computed by \<open>calculate_differences_2212\<close> on the two pixels' series with
  one and the same boundary sequence: \<open>cycle_ends_of\<close> of channel 0 of that file, whatever
  channels the two pixels are in.
\<close>

theorem cycle_ends_of_channel_0_for_every_pair:
  assumes "pix_coor firmware_version = Some pc"
    and "file_loop firmware_version pixels delta_window files w acc = (Inr rows, w')"
  shows "(\<forall>f \<in> set files. unpack_binary_data w f \<noteq> [])
       \<and> rows = acc @ concat (map (\<lambda>f.
                   map (\<lambda>pixel_j.
                          ct_row_of f (hd pixels) pixel_j
                            (projr (pixel_series pc (unpack_binary_data w f) (hd pixels)))
                            (projr (pixel_series pc (unpack_binary_data w f) pixel_j))
                            (cycle_ends_of (unpack_binary_data w f ! 0)) delta_window)
                       (filter (\<lambda>pixel_j. hd pixels < pixel_j
                                  \<and> valid_count (projr (pixel_series pc (unpack_binary_data w f)
                                                          (hd pixels))) \<noteq> 0)
                               (tl pixels)))
                 files)"
proof -
  have "rows = acc @ concat (map (\<lambda>f. file_rows pc pixels delta_window f
                                         (unpack_binary_data w f)) files)"
    using file_loop_Inr [OF assms] by simp
  then have "rows = acc @ concat (map (\<lambda>f.
                   map (\<lambda>pixel_j.
                          ct_row_of f (hd pixels) pixel_j
                            (projr (pixel_series pc (unpack_binary_data w f) (hd pixels)))
                            (projr (pixel_series pc (unpack_binary_data w f) pixel_j))
                            (cycle_ends_of (unpack_binary_data w f ! 0)) delta_window)
                       (filter (\<lambda>pixel_j. hd pixels < pixel_j
                                  \<and> valid_count (projr (pixel_series pc (unpack_binary_data w f)
                                                          (hd pixels))) \<noteq> 0)
                               (tl pixels)))
                 files)"
    unfolding file_rows_def .
  then show ?thesis using file_loop_channels [OF assms] by blast
qed

theorem cycle_ends_of_channel_0_for_every_pair_witness:
  "file_loop (PyStr ''2212b'') [0, 1] 10000 [''a.dat''] example_world []
   = (Inr [\<lparr>File = ''a.dat'', Pixel_1 = 0, Pixel_2 = 1, Timestamps_1 = 2,
             Timestamps_2 = 2, Deltas = 4, CT = 100\<rparr>],
      log_io (Unpack ''a.dat'') example_world)
   \<and> [\<lparr>File = ''a.dat'', Pixel_1 = 0, Pixel_2 = 1, Timestamps_1 = 2,
        Timestamps_2 = 2, Deltas = 4, CT = 100\<rparr>]
     = [ct_row_of ''a.dat'' 0 1 [100, 5100] [150, 5200] (cycle_ends_of (example_data ! 0)) 10000]
   \<and> cycle_ends_of (example_data ! 0) = [0, 2, 5]"
proof -
  have u: "unpack_binary_data example_world ''a.dat'' = example_data"
    by (simp add: example_world_def)
  have l: "file_loop (PyStr ''2212b'') [0, 1] 10000 [''a.dat''] example_world []
        = (Inr ([] @ [\<lparr>File = ''a.dat'', Pixel_1 = 0, Pixel_2 = 1, Timestamps_1 = 2,
             Timestamps_2 = 2, Deltas = 4, CT = 100\<rparr>]),
      log_io (Unpack ''a.dat'') example_world)"
    using u by (rule example_file_loop)
  from cycle_ends_of_channel_0_for_every_pair [OF pix_coor_2212b l]
  have "[] @ [\<lparr>File = ''a.dat'', Pixel_1 = 0, Pixel_2 = 1, Timestamps_1 = 2,
             Timestamps_2 = 2, Deltas = 4, CT = 100\<rparr>]
        = [ct_row_of ''a.dat'' 0 1 [100, 5100] [150, 5200] (cycle_ends_of (example_data ! 0)) 10000]"
    by (simp add: u example_series_0 example_series_1 example_valid)
  then show ?thesis using l example_cycle_ends by simp
qed

subsection \<open>Rows and positions: records of different cycles are paired\<close>

lemma example_rows:
  "pixel_rows (reshape 64 4 (arange 256)) example_data 0 = Inr [0, 3]"
  "pixel_rows (reshape 64 4 (arange 256)) example_data 1 = Inr [1, 4]"
  by (simp_all add: pixel_rows_def pixel_lookup_2212b get_chan_def example_data_def
      np_where_def col0_def upt_conv_Cons)

lemma example_all_offsets:
  "difference_offsets [100, 5100] [150, 5200] [0, 2, 5] 10000 = [(0, 0), (0, 1), (1, 0), (1, 1)]"
  by (simp add: difference_offsets_def cycle_ranges_def upt_conv_Cons)

lemma example_row_cycles:
  "in_cycle [0, 2, 5] 0 ([0, 3] ! 0) \<and> in_cycle [0, 2, 5] 1 ([1, 4] ! 1)
   \<and> \<not> in_cycle [0, 2, 5] 0 ([1, 4] ! 1)"
  by (simp add: in_cycle_def)

lemma grouped_rows:
  "pixel_rows (reshape 64 4 (arange 256)) grouped_data 0 = Inr [0, 1]"
  "pixel_rows (reshape 64 4 (arange 256)) grouped_data 1 = Inr [3, 4]"
  by (simp_all add: pixel_rows_def pixel_lookup_2212b get_chan_def grouped_data_def
      np_where_def col0_def upt_conv_Cons)

lemma grouped_series:
  "pixel_series (reshape 64 4 (arange 256)) grouped_data 0 = Inr [100, 5100]"
  "pixel_series (reshape 64 4 (arange 256)) grouped_data 1 = Inr [150, 5200]"
  by (simp_all add: pixel_series_def pixel_lookup_2212b get_chan_def grouped_data_def
      np_where_def gather_def col0_def col1_def upt_conv_Cons)

lemma grouped_cycle_ends: "cycle_ends_of (grouped_data ! 0) = [0, 2, 5]"
  by (simp add: cycle_ends_of_def grouped_data_def np_insert_def np_where_def col0_def
      upt_conv_Cons)

text \<open>
  The arguments of the call do not determine the rows. In \<open>grouped_data\<close> pixel 0 is in rows
  0 and 1 (first cycle) and pixel 1 in rows 3 and 4 (second cycle), so every pair of their
  records crosses the cycle end at row 2; yet the two series and the cycle ends are those of
  \<open>example_data\<close>, where rows 0 and 1, and rows 3 and 4, are pairs within one cycle.
\<close>

lemma same_arguments_other_rows:
  "pixel_series (reshape 64 4 (arange 256)) grouped_data 0
     = pixel_series (reshape 64 4 (arange 256)) example_data 0
   \<and> pixel_series (reshape 64 4 (arange 256)) grouped_data 1
     = pixel_series (reshape 64 4 (arange 256)) example_data 1
   \<and> cycle_ends_of (grouped_data ! 0) = cycle_ends_of (example_data ! 0)
   \<and> pixel_rows (reshape 64 4 (arange 256)) grouped_data 0 = Inr [0, 1]
   \<and> pixel_rows (reshape 64 4 (arange 256)) grouped_data 1 = Inr [3, 4]
   \<and> in_cycle [0, 2, 5] 0 0 \<and> in_cycle [0, 2, 5] 0 1
   \<and> in_cycle [0, 2, 5] 1 3 \<and> in_cycle [0, 2, 5] 1 4"
proof -
  have "in_cycle [0, 2, 5] 0 0 \<and> in_cycle [0, 2, 5] 0 1
        \<and> in_cycle [0, 2, 5] 1 3 \<and> in_cycle [0, 2, 5] 1 4"
    by (simp add: in_cycle_def)
  then show ?thesis
    by (simp add: grouped_series example_series_0 example_series_1 grouped_cycle_ends
        example_cycle_ends grouped_rows)
qed

text \<open>
  C3 fails on the call as \<^verbatim>\<open>collect_cross_talk\<close> makes it. The series it hands to
  \<open>calculate_differences_2212\<close> are the pixels' timestamps with the other rows of the channel
  taken out, whereas the boundaries are row indices of channel 0. In the example file pixel 0
  is in rows 0 and 3 and pixel 1 in rows 1 and 4 of channel 0, and the cycles end at rows 2
  and 5. The call returns four differences, which the written row counts; the second,
  \<open>5100 = 5200 - 100\<close>, is formed from position 0 of the first series and position 1 of the
  second, that is from row 0, in the first cycle, and row 4, in the second.
\<close>

theorem cross_talk_pairs_records_of_different_cycles:
  "collect_cross_talk example_world ''data'' [0, 1] (PyStr ''NL11'') (PyStr ''#33'')
     (PyStr ''2212b'') 10000 = (Inr (), first_run_world)
   \<and> map (\<lambda>r. (Pixel_1 r, Pixel_2 r, Deltas r))
         (the (map_of (ct_dir first_run_world) ''CT_data_a.dat-a.dat.csv'')) = [(0, 1, 4)]
   \<and> pixel_rows (the (pix_coor (PyStr ''2212b''))) example_data 0 = Inr [0, 3]
   \<and> pixel_rows (the (pix_coor (PyStr ''2212b''))) example_data 1 = Inr [1, 4]
   \<and> pixel_series (the (pix_coor (PyStr ''2212b''))) example_data 0 = Inr [100, 5100]
   \<and> pixel_series (the (pix_coor (PyStr ''2212b''))) example_data 1 = Inr [150, 5200]
   \<and> cycle_ends_of (example_data ! 0) = [0, 2, 5]
   \<and> calculate_differences_2212 [100, 5100] [150, 5200] [0, 2, 5] 10000
     = [50, 5100, - 4950, 100]
   \<and> difference_offsets [100, 5100] [150, 5200] [0, 2, 5] 10000 ! 1 = (0, 1)
   \<and> in_cycle [0, 2, 5] 0 ([0, 3] ! 0)
   \<and> in_cycle [0, 2, 5] 1 ([1, 4] ! 1)
   \<and> \<not> in_cycle [0, 2, 5] 0 ([1, 4] ! 1)"
proof -
  have t: "map (\<lambda>r. (Pixel_1 r, Pixel_2 r, Deltas r))
         (the (map_of (ct_dir first_run_world) ''CT_data_a.dat-a.dat.csv'')) = [(0, 1, 4)]"
    by (simp add: first_run_world_def)
  have o: "difference_offsets [100, 5100] [150, 5200] [0, 2, 5] 10000 ! 1 = (0, 1)"
    by (simp add: example_all_offsets)
  have r: "pixel_rows (the (pix_coor (PyStr ''2212b''))) example_data 0 = Inr [0, 3]"
    "pixel_rows (the (pix_coor (PyStr ''2212b''))) example_data 1 = Inr [1, 4]"
    by (simp_all add: pix_coor_2212b example_rows)
  have s: "pixel_series (the (pix_coor (PyStr ''2212b''))) example_data 0 = Inr [100, 5100]"
    "pixel_series (the (pix_coor (PyStr ''2212b''))) example_data 1 = Inr [150, 5200]"
    by (simp_all add: pix_coor_2212b example_series_0 example_series_1)
  show ?thesis
    using example_run t o r s example_cycle_ends example_deltas example_row_cycles
    by blast
qed

end
